theory Spec2Isabelle
  imports Main
begin

section \<open>Data model (conversation.model.ts, message schema, user.model.ts)\<close>

text \<open>
  A Mongo ObjectId is an opaque identifier, modelled as a natural number. A JavaScript
  \<open>Date\<close> is the number of milliseconds since the epoch, modelled as an integer; a field
  of type \<open>Date | null\<close> is an option. A \<open>Date\<close> object is always truthy in JavaScript,
  so the source's tests \<open>if (p.deletedAt)\<close> and \<open>x || null\<close> on such a field test for
  \<open>None\<close>.
\<close>

type_synonym objectId = nat
type_synonym date = int

text \<open>
  A JavaScript string is a sequence of UTF-16 code units. The texts that the handlers
  trim or test for emptiness (message text, its snapshot in \<open>lastMessage\<close>) are modelled
  as lists of code units (integers), so that \<open>String.prototype.trim\<close> sees every white-space
  character it strips; \<open>ascii\<close> writes such a text from an ASCII literal. Names, urls and
  the messages of the answers are never inspected and stay Isabelle strings.
\<close>

type_synonym jsString = "int list"

definition ascii :: "string \<Rightarrow> jsString" where
  "ascii str = map of_char str"

datatype convType = Private | Group

record participant =
  userId :: objectId
  deletedAt :: "date option"
  hideMessagesBefore :: "date option"
  archivedAt :: "date option"
  mutedUntil :: "date option"
  blocked :: bool

record last_message =
  messageId :: objectId
  lm_text :: "jsString option"
  sentAt :: date

record conversation =
  conv_id :: objectId
  conv_type :: convType
  participants :: "participant list"
  groupName :: "string option"
  groupPhoto :: "string option"
  lastMessage :: "last_message option"
  conv_createdAt :: date
  conv_updatedAt :: date

datatype attachmentType = Image | Video | File

record attachment =
  att_type :: attachmentType
  url :: string

text \<open>
  The message document. \<open>readBy\<close> is not a path of \<open>messageSchema\<close>; it is the field
  that the listing operation names in its update, kept here so that the update can be
  modelled as the source writes it.
\<close>

record message =
  msg_id :: objectId
  conversationId :: objectId
  senderId :: objectId
  msg_text :: "jsString option"
  attachments :: "attachment list"
  isDeletedForEveryone :: bool
  deletedFor :: "objectId list"
  seenBy :: "objectId list"
  deliveredTo :: "objectId list"
  readBy :: "objectId list"
  createdAt :: date
  updatedAt :: date

record user =
  user_id :: objectId
  username :: string
  isActive :: bool

text \<open>
  The database: three collections in insertion order. \<open>findOne\<close> without a sort returns
  the first matching document in that order (\<open>find\<close> on the list), \<open>create\<close> appends.
  Every handler is a function from the request and the database to the answer and the
  new database. The model covers the handlers while the store answers: the \<open>catch\<close>
  branches for a failing store are left out, a request value that makes the driver raise
  is a branch. A document's \<open>updatedAt\<close> is written where a handler assigns it; the
  refresh that the driver adds on its own when it saves is not modelled.
\<close>

record db =
  conversations :: "conversation list"
  messages :: "message list"
  users :: "user list"

text \<open>
  A request parameter that must be an ObjectId string: absent or falsy, present but
  rejected by \<open>ObjectId.isValid\<close>, or a valid id.
\<close>

datatype idParam = IdMissing | IdInvalid | IdValid objectId

text \<open>The page of messages returned by the listing operation.\<close>

record page =
  page_conversationId :: objectId
  conversationType :: convType
  page_messages :: "message list"
  nextCursor :: "date option"
  hasMore :: bool

datatype body =
    Message string
  | ConversationDoc conversation
  | MessageWithConversation string conversation
  | MessagesPage page
  | Hidden string objectId date

datatype response = Response (status: nat) (body: body)

section \<open>Documents created with schema defaults\<close>

definition newParticipant :: "objectId \<Rightarrow> participant" where
  "newParticipant u =
     \<lparr>userId = u, deletedAt = None, hideMessagesBefore = None, archivedAt = None,
      mutedUntil = None, blocked = False\<rparr>"

definition newPrivateConversation ::
  "objectId \<Rightarrow> date \<Rightarrow> objectId \<Rightarrow> objectId \<Rightarrow> conversation" where
  "newPrivateConversation newId now a b =
     \<lparr>conv_id = newId, conv_type = Private,
      participants = [newParticipant a, newParticipant b],
      groupName = None, groupPhoto = None, lastMessage = None,
      conv_createdAt = now, conv_updatedAt = now\<rparr>"

section \<open>getOrCreatePrivateConversation (POST /private)\<close>

text \<open>
  The block guard query: a private conversation holding both users in which one of the
  two has \<open>blocked = true\<close>.
\<close>

definition blockedExistingQuery :: "objectId \<Rightarrow> objectId \<Rightarrow> conversation \<Rightarrow> bool" where
  "blockedExistingQuery meId participantId c \<longleftrightarrow>
     conv_type c = Private \<and>
     list_ex (\<lambda>p. userId p = meId) (participants c) \<and>
     list_ex (\<lambda>p. userId p = participantId) (participants c) \<and>
     (list_ex (\<lambda>p. userId p = meId \<and> blocked p) (participants c) \<or>
      list_ex (\<lambda>p. userId p = participantId \<and> blocked p) (participants c))"

text \<open>The active query: a private conversation in which both sides have \<open>deletedAt = null\<close>.\<close>

definition activeQuery :: "objectId \<Rightarrow> objectId \<Rightarrow> conversation \<Rightarrow> bool" where
  "activeQuery meId participantId c \<longleftrightarrow>
     conv_type c = Private \<and>
     list_ex (\<lambda>p. userId p = meId \<and> deletedAt p = None) (participants c) \<and>
     list_ex (\<lambda>p. userId p = participantId \<and> deletedAt p = None) (participants c)"

text \<open>
  \<open>meId\<close> is the authenticated user, \<open>newId\<close> the identifier and \<open>now\<close> the timestamp that
  the driver gives a created document.
\<close>

definition getOrCreatePrivateConversation ::
  "objectId \<Rightarrow> idParam \<Rightarrow> objectId \<Rightarrow> date \<Rightarrow> db \<Rightarrow> response \<times> db" where
  "getOrCreatePrivateConversation meId participantId newId now s =
     (case participantId of
        IdMissing \<Rightarrow> (Response 400 (Message ''participantId required''), s)
      | IdInvalid \<Rightarrow> (Response 400 (Message ''invalid id''), s)
      | IdValid pid \<Rightarrow>
          (case find (blockedExistingQuery meId pid) (conversations s) of
             Some blockedExisting \<Rightarrow> (Response 403 (Message ''Conversation not allowed''), s)
           | None \<Rightarrow>
               (case find (activeQuery meId pid) (conversations s) of
                  Some active \<Rightarrow> (Response 200 (ConversationDoc active), s)
                | None \<Rightarrow>
                    (let conv = newPrivateConversation newId now meId pid
                     in (Response 201 (ConversationDoc conv),
                         s\<lparr>conversations := conversations s @ [conv]\<rparr>)))))"

text \<open>The private conversations that hold both users of a pair.\<close>

definition privateBetween :: "objectId \<Rightarrow> objectId \<Rightarrow> db \<Rightarrow> conversation list" where
  "privateBetween a b s =
     filter (\<lambda>c. conv_type c = Private \<and>
                  list_ex (\<lambda>p. userId p = a) (participants c) \<and>
                  list_ex (\<lambda>p. userId p = b) (participants c))
       (conversations s)"

section \<open>Collection helpers\<close>

text \<open>
  \<open>updateOne\<close> and a reference obtained with \<open>Array.prototype.find\<close> reach the first
  match only. \<open>doc.save()\<close> writes the document back to the one stored document with
  its \<open>_id\<close>, the first in the collection.
\<close>

fun updateFirst :: "('a \<Rightarrow> bool) \<Rightarrow> ('a \<Rightarrow> 'a) \<Rightarrow> 'a list \<Rightarrow> 'a list" where
  "updateFirst P f [] = []"
| "updateFirst P f (x # xs) = (if P x then f x # xs else x # updateFirst P f xs)"

definition saveConversation :: "conversation \<Rightarrow> conversation list \<Rightarrow> conversation list" where
  "saveConversation c cs = updateFirst (\<lambda>x. conv_id x = conv_id c) (\<lambda>x. c) cs"

definition saveMessage :: "message \<Rightarrow> message list \<Rightarrow> message list" where
  "saveMessage m ms = updateFirst (\<lambda>x. msg_id x = msg_id m) (\<lambda>x. m) ms"

text \<open>
  The two assignments \<open>p.deletedAt = now; p.hideMessagesBefore = now\<close> of the delete
  handlers, and the two assignments to \<open>null\<close> of the restore path.
\<close>

definition markHidden :: "date \<Rightarrow> participant \<Rightarrow> participant" where
  "markHidden now p = p\<lparr>deletedAt := Some now, hideMessagesBefore := Some now\<rparr>"

definition markRestored :: "participant \<Rightarrow> participant" where
  "markRestored p = p\<lparr>deletedAt := None, hideMessagesBefore := None\<rparr>"

text \<open>\<open>sort({ createdAt: -1 })\<close>: newest first; equal timestamps keep insertion order.\<close>

definition sortNewestFirst :: "message list \<Rightarrow> message list" where
  "sortNewestFirst ms = sort_key (\<lambda>m. - createdAt m) ms"

section \<open>getMessagesByConversationId (GET /:conversationId/messages)\<close>

text \<open>
  The filter passed to \<open>Message.find\<close> is a JavaScript object literal built with spread
  syntax. It is modelled as a finite map from field to condition; spreading an object
  into the literal is map override (\<open>++\<close>): a later key replaces an earlier one.
\<close>

datatype field = FConversationId | FDeletedFor | FCreatedAt

datatype condition = Equals objectId | ArrayNe objectId | Gt date | Lt date

type_synonym filter = "field \<rightharpoonup> condition"

fun holds :: "field \<Rightarrow> condition \<Rightarrow> message \<Rightarrow> bool" where
  "holds FConversationId (Equals i) m = (conversationId m = i)"
| "holds FDeletedFor (ArrayNe u) m = (u \<notin> set (deletedFor m))"
| "holds FCreatedAt (Gt d) m = (d < createdAt m)"
| "holds FCreatedAt (Lt d) m = (createdAt m < d)"
| "holds _ _ _ = False"

definition matches :: "filter \<Rightarrow> message \<Rightarrow> bool" where
  "matches q m =
     list_all (\<lambda>k. case q k of None \<Rightarrow> True | Some c \<Rightarrow> holds k c m)
       [FConversationId, FDeletedFor, FCreatedAt]"

text \<open>
  The \<open>before\<close> query parameter: absent, a string that \<open>new Date\<close> turns into an invalid
  date (which the driver refuses to cast, so the request ends in the \<open>catch\<close> branch), or
  a date. The \<open>limit\<close> parameter is \<open>None\<close> when absent or not a number.
\<close>

datatype dateParam = DateAbsent | DateInvalid | DateGiven date

definition pageLimit :: "nat option \<Rightarrow> nat" where
  "pageLimit q = min (case q of None \<Rightarrow> 30 | Some n \<Rightarrow> if n = 0 then 30 else n) 100"

definition accessQuery :: "objectId \<Rightarrow> objectId \<Rightarrow> conversation \<Rightarrow> bool" where
  "accessQuery cid u c \<longleftrightarrow>
     conv_id c = cid \<and>
     list_ex (\<lambda>p. userId p = u) (participants c) \<and>
     list_ex (\<lambda>p. deletedAt p = None) (participants c)"

definition hideBeforeOf :: "objectId \<Rightarrow> conversation \<Rightarrow> date option" where
  "hideBeforeOf u c =
     (case find (\<lambda>p. userId p = u) (participants c) of
        None \<Rightarrow> None
      | Some p \<Rightarrow> hideMessagesBefore p)"

definition timeFilter :: "date option \<Rightarrow> filter" where
  "timeFilter beforeDate =
     (case beforeDate of Some b \<Rightarrow> [FCreatedAt \<mapsto> Lt b] | None \<Rightarrow> Map.empty)"

definition messageQuery :: "objectId \<Rightarrow> objectId \<Rightarrow> date option \<Rightarrow> date option \<Rightarrow> filter" where
  "messageQuery cid u hideBefore beforeDate =
     [FConversationId \<mapsto> Equals cid, FDeletedFor \<mapsto> ArrayNe u]
       ++ (case hideBefore of Some h \<Rightarrow> [FCreatedAt \<mapsto> Gt h] | None \<Rightarrow> Map.empty)
       ++ timeFilter beforeDate"

text \<open>\<open>Message.find(q).sort({ createdAt: -1 }).limit(n)\<close>.\<close>

definition fetchMessages :: "filter \<Rightarrow> nat \<Rightarrow> message list \<Rightarrow> message list" where
  "fetchMessages q n ms = take n (sortNewestFirst (filter (matches q) ms))"

text \<open>
  Step 6 of the handler: the update that names \<open>readBy\<close>. The rows of the answer are the
  stored documents; \<open>populate\<close>, which attaches the sender's profile to each row, is not
  modelled. \<open>limit\<close> is a natural number.
\<close>

definition markRead :: "objectId \<Rightarrow> objectId \<Rightarrow> message list \<Rightarrow> message list" where
  "markRead cid u ms =
     map (\<lambda>m. if conversationId m = cid \<and> senderId m \<noteq> u \<and> u \<notin> set (readBy m)
               then m\<lparr>readBy := readBy m @ [u]\<rparr> else m) ms"

definition getMessagesByConversationId ::
  "objectId \<Rightarrow> idParam \<Rightarrow> nat option \<Rightarrow> dateParam \<Rightarrow> db \<Rightarrow> response \<times> db" where
  "getMessagesByConversationId u conversationIdParam limitParam beforeParam s =
     (case conversationIdParam of
        IdValid cid \<Rightarrow>
          (case find (accessQuery cid u) (conversations s) of
             None \<Rightarrow> (Response 404 (Message ''Conversation not found or access denied.''), s)
           | Some conversation \<Rightarrow>
               (case beforeParam of
                  DateInvalid \<Rightarrow>
                    (Response 500 (Message ''Failed to fetch conversation messages.''), s)
                | _ \<Rightarrow>
                    (let hideBefore = hideBeforeOf u conversation;
                         limit = pageLimit limitParam;
                         beforeDate = (case beforeParam of DateGiven b \<Rightarrow> Some b | _ \<Rightarrow> None);
                         found = fetchMessages
                                   (messageQuery (conv_id conversation) u hideBefore beforeDate)
                                   (limit + 1) (messages s);
                         more = (limit < length found);
                         items = (if more then take limit found else found);
                         cursor = (if more then Some (createdAt (last items)) else None)
                     in (Response 200
                           (MessagesPage
                              \<lparr>page_conversationId = conv_id conversation,
                               conversationType = conv_type conversation,
                               page_messages = rev items,
                               nextCursor = cursor,
                               hasMore = more\<rparr>),
                         s\<lparr>messages := markRead (conv_id conversation) u (messages s)\<rparr>))))
      | _ \<Rightarrow> (Response 400 (Message ''Invalid conversation ID.''), s))"

section \<open>markMessagesSeen (POST /messages/seen)\<close>

text \<open>
  The \<open>messageIds\<close> field of the body: not an array, or an array of ids (each one a value
  that casts to an ObjectId). \<open>$push\<close> appends.
\<close>

datatype idsParam = IdsNotArray | IdsArray "objectId list"

definition markSeenBy :: "objectId \<Rightarrow> message \<Rightarrow> message" where
  "markSeenBy u m = m\<lparr>seenBy := seenBy m @ [u]\<rparr>"

definition markMessagesSeen :: "objectId \<Rightarrow> idsParam \<Rightarrow> db \<Rightarrow> response \<times> db" where
  "markMessagesSeen meId messageIds s =
     (case messageIds of
        IdsNotArray \<Rightarrow> (Response 400 (Message ''messageIds required''), s)
      | IdsArray ids \<Rightarrow>
          (if ids = [] then (Response 400 (Message ''messageIds required''), s)
           else (Response 200 (Message ''Marked seen''),
                 s\<lparr>messages :=
                      map (\<lambda>m. if msg_id m \<in> set ids \<and> meId \<notin> set (seenBy m)
                                then markSeenBy meId m else m)
                        (messages s)\<rparr>)))"

section \<open>deleteMessageForEveryone (DELETE /message/:messageId/everyone)\<close>

definition latestActive :: "objectId \<Rightarrow> message list \<Rightarrow> message option" where
  "latestActive cid ms =
     (case sortNewestFirst
             (filter (\<lambda>m. conversationId m = cid \<and> \<not> isDeletedForEveryone m) ms) of
        [] \<Rightarrow> None
      | m # _ \<Rightarrow> Some m)"

definition textOrEmpty :: "jsString option \<Rightarrow> jsString" where
  "textOrEmpty t = (case t of None \<Rightarrow> [] | Some x \<Rightarrow> x)"

definition deleteMessageForEveryone ::
  "objectId \<Rightarrow> idParam \<Rightarrow> date \<Rightarrow> db \<Rightarrow> response \<times> db" where
  "deleteMessageForEveryone meId messageIdParam now s =
     (case messageIdParam of
        IdValid mid \<Rightarrow>
          (case find (\<lambda>m. msg_id m = mid) (messages s) of
             None \<Rightarrow> (Response 404 (Message ''Message not found''), s)
           | Some msg \<Rightarrow>
               (if senderId msg \<noteq> meId
                then (Response 403 (Message ''Only sender can delete for everyone''), s)
                else
                  (let s1 = s\<lparr>messages :=
                                 saveMessage (msg\<lparr>isDeletedForEveryone := True\<rparr>) (messages s)\<rparr>;
                       s2 =
                         (case find (\<lambda>c. conv_id c = conversationId msg) (conversations s1) of
                            None \<Rightarrow> s1
                          | Some conv \<Rightarrow>
                              (let isLast =
                                     (case lastMessage conv of
                                        None \<Rightarrow> False
                                      | Some lm \<Rightarrow> messageId lm = mid)
                               in if isLast
                                  then
                                    (let latest = latestActive (conversationId msg) (messages s1);
                                         conv' = conv
                                           \<lparr>lastMessage :=
                                              (case latest of
                                                 Some l \<Rightarrow>
                                                   Some \<lparr>messageId = msg_id l,
                                                         lm_text = Some (textOrEmpty (msg_text l)),
                                                         sentAt = createdAt l\<rparr>
                                               | None \<Rightarrow> None),
                                            conv_updatedAt := now\<rparr>
                                     in s1\<lparr>conversations :=
                                             saveConversation conv' (conversations s1)\<rparr>)
                                  else s1))
                   in (Response 200 (Message ''Deleted for everyone''), s2))))
      | _ \<Rightarrow> (Response 400 (Message ''invalid message id''), s))"

section \<open>deleteConversationForUser (DELETE /conversation/:conversationId)\<close>

definition deleteConversationForUser ::
  "objectId \<Rightarrow> idParam \<Rightarrow> date \<Rightarrow> db \<Rightarrow> response \<times> db" where
  "deleteConversationForUser meId convIdParam now s =
     (case convIdParam of
        IdValid convId \<Rightarrow>
          (case find (\<lambda>c. conv_id c = convId) (conversations s) of
             None \<Rightarrow> (Response 404 (Message ''Conversation not found''), s)
           | Some conv \<Rightarrow>
               (let conv' = conv
                      \<lparr>participants :=
                         map (\<lambda>p. if userId p = meId then markHidden now p else p)
                           (participants conv)\<rparr>
                in (Response 200 (MessageWithConversation ''Conversation deleted for you'' conv'),
                    s\<lparr>conversations := saveConversation conv' (conversations s)\<rparr>)))
      | _ \<Rightarrow> (Response 400 (Message ''invalid conversation id''), s))"

section \<open>softDeleteConversation (DELETE /softdelete)\<close>

text \<open>
  \<open>authUser\<close> is \<open>req.user?._id\<close>, which this handler tests itself. \<open>participant\<close> is a
  reference to the first element of the array with the caller's id, so the two
  assignments reach that element only.
\<close>

definition alreadyDeleted :: "participant \<Rightarrow> bool" where
  "alreadyDeleted p =
     (case deletedAt p of
        None \<Rightarrow> False
      | Some d \<Rightarrow> (case hideMessagesBefore p of None \<Rightarrow> False | Some h \<Rightarrow> d = h))"

definition softDeleteConversation ::
  "objectId option \<Rightarrow> idParam \<Rightarrow> date \<Rightarrow> db \<Rightarrow> response \<times> db" where
  "softDeleteConversation authUser conversationIdParam now s =
     (case authUser of
        None \<Rightarrow>
          (Response 401 (Message ''Authenticated user context is missing or invalid.''), s)
      | Some authUserId \<Rightarrow>
          (case conversationIdParam of
             IdValid cid \<Rightarrow>
               (case find (\<lambda>c. conv_id c = cid) (conversations s) of
                  None \<Rightarrow> (Response 404 (Message ''Conversation not found.''), s)
                | Some conversation \<Rightarrow>
                    (case find (\<lambda>p. userId p = authUserId) (participants conversation) of
                       None \<Rightarrow>
                         (Response 403
                            (Message ''You are not a participant in this conversation.''), s)
                     | Some participant \<Rightarrow>
                         (if blocked participant
                          then (Response 403
                                  (Message ''Conversation cannot be deleted while blocked.''), s)
                          else if alreadyDeleted participant
                          then (Response 200
                                  (Message ''Conversation already deleted for this user.''), s)
                          else
                            (let conversation' = conversation
                                   \<lparr>participants :=
                                      updateFirst (\<lambda>p. userId p = authUserId)
                                        (markHidden now) (participants conversation)\<rparr>
                             in (Response 200
                                   (Hidden ''Conversation hidden successfully for the current user.''
                                      cid now),
                                 s\<lparr>conversations :=
                                      saveConversation conversation' (conversations s)\<rparr>)))))
           | _ \<Rightarrow>
               (Response 400 (Message ''conversationId must be a valid ObjectId string.''), s)))"

section \<open>handlePrivateConversation (POST /create-con with type private)\<close>

text \<open>
  \<open>String.prototype.trim\<close> strips the white space and line terminators of ECMAScript
  from both ends: TAB, LF, VT, FF, CR, SPACE, NO-BREAK SPACE, U+1680, U+2000 to U+200A,
  U+2028, U+2029, U+202F, U+205F, U+3000 and U+FEFF. \<open>isNonEmptyString\<close> is false for a
  value that is not a string (\<open>None\<close>) and for a string that trims to nothing.
\<close>

definition isWhitespace :: "int \<Rightarrow> bool" where
  "isWhitespace c \<longleftrightarrow>
     c \<in> set [0x09, 0x0A, 0x0B, 0x0C, 0x0D, 0x20, 0xA0, 0x1680,
               0x2028, 0x2029, 0x202F, 0x205F, 0x3000, 0xFEFF] \<or>
     (0x2000 \<le> c \<and> c \<le> 0x200A)"

definition trim :: "jsString \<Rightarrow> jsString" where
  "trim str = rev (dropWhile isWhitespace (rev (dropWhile isWhitespace str)))"

definition isNonEmptyString :: "jsString option \<Rightarrow> bool" where
  "isNonEmptyString v = (case v of None \<Rightarrow> False | Some str \<Rightarrow> 0 < length (trim str))"

definition newMessage ::
  "objectId \<Rightarrow> date \<Rightarrow> objectId \<Rightarrow> objectId \<Rightarrow> jsString option \<Rightarrow> attachment list \<Rightarrow> message" where
  "newMessage newId stamp cid sender txt atts =
     \<lparr>msg_id = newId, conversationId = cid, senderId = sender, msg_text = txt,
      attachments = atts, isDeletedForEveryone = False, deletedFor = [], seenBy = [],
      deliveredTo = [], readBy = [], createdAt = stamp, updatedAt = stamp\<rparr>"

definition pairQuery :: "objectId \<Rightarrow> objectId \<Rightarrow> conversation \<Rightarrow> bool" where
  "pairQuery a b c \<longleftrightarrow>
     conv_type c = Private \<and>
     a \<in> set (map userId (participants c)) \<and> b \<in> set (map userId (participants c))"

text \<open>
  The clock is read three times on the creating path: \<open>wallClock\<close> by the handler's own
  \<open>const now = new Date()\<close>, then \<open>convStamp\<close> and \<open>msgStamp\<close> by the driver when it stamps the two
  created documents. \<open>newConvId\<close> and \<open>newMsgId\<close> are the identifiers they receive.
\<close>

record creation =
  wallClock :: date
  newConvId :: objectId
  convStamp :: date
  newMsgId :: objectId
  msgStamp :: date

definition restoreExisting ::
  "objectId \<Rightarrow> objectId \<Rightarrow> conversation \<Rightarrow> db \<Rightarrow> response \<times> db" where
  "restoreExisting authUserId targetId existingConversation s =
     (if length (participants existingConversation) \<noteq> 2
      then (Response 409
              (Message ''A conflicting private conversation exists with invalid participants.''), s)
      else
        (case (find (\<lambda>p. userId p = authUserId) (participants existingConversation),
               find (\<lambda>p. userId p = targetId) (participants existingConversation)) of
           (Some authParticipant, Some targetParticipant) \<Rightarrow>
             (if blocked authParticipant \<or> blocked targetParticipant
              then (Response 403
                      (Message ''One of the participants has blocked this conversation.''), s)
              else if deletedAt targetParticipant \<noteq> None
              then (Response 403
                      (Message
                         ''The other participant has hidden this chat. They must restore it first.''),
                    s)
              else if deletedAt authParticipant \<noteq> None
              then
                (let conv' = existingConversation
                       \<lparr>participants :=
                          updateFirst (\<lambda>p. userId p = authUserId) markRestored
                            (participants existingConversation)\<rparr>
                 in (Response 200 (MessageWithConversation ''Private conversation restored.'' conv'),
                     s\<lparr>conversations := saveConversation conv' (conversations s)\<rparr>))
              else (Response 200
                      (MessageWithConversation ''Private conversation restored.''
                         existingConversation), s))
         | _ \<Rightarrow>
             (Response 409
                (Message ''Existing conversation is missing participants metadata.''), s)))"

definition createPrivateWithMessage ::
  "objectId \<Rightarrow> objectId \<Rightarrow> jsString option \<Rightarrow> creation \<Rightarrow> db \<Rightarrow> response \<times> db" where
  "createPrivateWithMessage authUserId targetId initialMessage k s =
     (let now = wallClock k;
          createdConversation =
            newPrivateConversation (newConvId k) (convStamp k) authUserId targetId;
          message =
            newMessage (newMsgId k) (msgStamp k) (conv_id createdConversation) authUserId
              (map_option trim initialMessage) [];
          saved = createdConversation
            \<lparr>lastMessage :=
               Some \<lparr>messageId = msg_id message,
                     lm_text = Some (textOrEmpty (msg_text message)),
                     sentAt = now\<rparr>\<rparr>
      in (Response 201 (MessageWithConversation ''Private conversation created successfully.'' saved),
          s\<lparr>conversations := conversations s @ [saved],
            messages := messages s @ [message]\<rparr>))"

definition handlePrivateConversation ::
  "objectId \<Rightarrow> idParam \<Rightarrow> jsString option \<Rightarrow> creation \<Rightarrow> db \<Rightarrow> response \<times> db" where
  "handlePrivateConversation authUserId targetUserId initialMessage k s =
     (case targetUserId of
        IdValid targetId \<Rightarrow>
          (if \<not> isNonEmptyString initialMessage
           then (Response 400
                   (Message ''An initial message is required to start a private conversation.''), s)
           else if targetId = authUserId
           then (Response 400 (Message ''You cannot start a private chat with yourself.''), s)
           else
             (case find (\<lambda>u. user_id u = targetId) (users s) of
                None \<Rightarrow> (Response 404 (Message ''The target user was not found.''), s)
              | Some targetUser \<Rightarrow>
                  (case find (pairQuery authUserId targetId) (conversations s) of
                     Some existingConversation \<Rightarrow>
                       restoreExisting authUserId (user_id targetUser) existingConversation s
                   | None \<Rightarrow>
                       createPrivateWithMessage authUserId (user_id targetUser)
                         initialMessage k s)))
      | _ \<Rightarrow> (Response 400 (Message ''targetUserId must be a valid ObjectId string.''), s))"

section \<open>Realtime events (setupSocket)\<close>

datatype ack = AckFailed "string option" | AckOk | AckMessage message

text \<open>
  \<open>send:message\<close>. \<open>text || null\<close> turns an absent or empty text into \<open>null\<close>; the message
  schema trims the stored text, the \<open>lastMessage\<close> snapshot takes the payload's text as
  it is. \<open>stamp\<close> is the creation time the driver gives the message, \<open>now\<close> the handler's
  later \<open>new Date()\<close>. The emits to rooms are not part of the state.
\<close>

definition textOrNull :: "jsString option \<Rightarrow> jsString option" where
  "textOrNull t = (case t of None \<Rightarrow> None | Some x \<Rightarrow> if x = [] then None else Some x)"

definition sendMessage ::
  "objectId \<Rightarrow> idParam \<Rightarrow> jsString option \<Rightarrow> attachment list option \<Rightarrow>
   objectId \<Rightarrow> date \<Rightarrow> date \<Rightarrow> db \<Rightarrow> ack \<times> db" where
  "sendMessage senderUser conversationIdParam txt atts newId stamp now s =
     (case conversationIdParam of
        IdValid cid \<Rightarrow>
          (case find (\<lambda>c. conv_id c = cid) (conversations s) of
             None \<Rightarrow> (AckFailed (Some ''Conversation not found''), s)
           | Some conv \<Rightarrow>
               (if \<not> list_ex (\<lambda>p. userId p = senderUser) (participants conv)
                then (AckFailed (Some ''Not a participant''), s)
                else
                  (let msg = newMessage newId stamp cid senderUser
                               (map_option trim (textOrNull txt))
                               (case atts of None \<Rightarrow> [] | Some a \<Rightarrow> a);
                       conv' = conv
                         \<lparr>lastMessage :=
                            Some \<lparr>messageId = msg_id msg, lm_text = textOrNull txt,
                                  sentAt = createdAt msg\<rparr>,
                          conv_updatedAt := now\<rparr>
                   in (AckMessage msg,
                       s\<lparr>messages := messages s @ [msg],
                         conversations := saveConversation conv' (conversations s)\<rparr>))))
      | _ \<Rightarrow> (AckFailed (Some ''Invalid conversationId''), s))"

text \<open>
  \<open>message:deleteForEveryone\<close>: the sender's message gets the flag; the handler does not
  read or write the conversation.
\<close>

definition deleteForEveryoneEvent :: "objectId \<Rightarrow> idParam \<Rightarrow> db \<Rightarrow> ack \<times> db" where
  "deleteForEveryoneEvent u messageIdParam s =
     (case messageIdParam of
        IdValid mid \<Rightarrow>
          (case find (\<lambda>m. msg_id m = mid) (messages s) of
             None \<Rightarrow> (AckFailed (Some ''Message not found''), s)
           | Some msg \<Rightarrow>
               (if senderId msg \<noteq> u then (AckFailed (Some ''Not sender''), s)
                else (AckOk,
                      s\<lparr>messages :=
                           saveMessage (msg\<lparr>isDeletedForEveryone := True\<rparr>) (messages s)\<rparr>)))
      | _ \<Rightarrow> (AckFailed None, s))"

text \<open>
  \<open>chat:delete\<close>: \<open>updateOne\<close> with the positional operator sets \<open>deletedAt\<close> on the first
  participant with the caller's id, in the first conversation that matches.
\<close>

definition chatDelete :: "objectId \<Rightarrow> idParam \<Rightarrow> date \<Rightarrow> db \<Rightarrow> ack \<times> db" where
  "chatDelete u conversationIdParam now s =
     (case conversationIdParam of
        IdValid cid \<Rightarrow>
          (AckOk,
           s\<lparr>conversations :=
                updateFirst
                  (\<lambda>c. conv_id c = cid \<and> list_ex (\<lambda>p. userId p = u) (participants c))
                  (\<lambda>c. c\<lparr>participants :=
                            updateFirst (\<lambda>p. userId p = u) (\<lambda>p. p\<lparr>deletedAt := Some now\<rparr>)
                              (participants c)\<rparr>)
                  (conversations s)\<rparr>)
      | _ \<Rightarrow> (AckFailed None, s))"

section \<open>Example states\<close>

text \<open>
  Users 1 and 2 share the private conversation 10; user 3 is an outsider. In
  \<open>hiddenThread\<close> user 1 has deleted the conversation for themselves at time 100.
\<close>

definition openThread :: conversation where
  "openThread = newPrivateConversation 10 0 1 2"

definition hiddenThread :: conversation where
  "hiddenThread =
     openThread
       \<lparr>participants :=
          [(newParticipant 1)\<lparr>deletedAt := Some 100, hideMessagesBefore := Some 100\<rparr>,
           newParticipant 2]\<rparr>"

definition threeUsers :: "user list" where
  "threeUsers =
     [\<lparr>user_id = 1, username = ''alice'', isActive = True\<rparr>,
      \<lparr>user_id = 2, username = ''bob'', isActive = True\<rparr>,
      \<lparr>user_id = 3, username = ''charlie'', isActive = False\<rparr>]"

definition dbEmpty :: db where
  "dbEmpty = \<lparr>conversations = [], messages = [], users = threeUsers\<rparr>"

definition dbOpen :: db where
  "dbOpen = \<lparr>conversations = [openThread], messages = [], users = threeUsers\<rparr>"

definition dbHidden :: db where
  "dbHidden = \<lparr>conversations = [hiddenThread], messages = [], users = threeUsers\<rparr>"

text \<open>
  In \<open>dbTombstone\<close> the conversation holds one message, sent by user 2 and deleted for
  everyone. \<open>clearFlag\<close> is the same document without the deletion flag.
\<close>

definition tombstone :: message where
  "tombstone =
     (newMessage 100 50 10 2 (Some (ascii ''secret'')) [\<lparr>att_type = Image, url = ''u''\<rparr>])
       \<lparr>isDeletedForEveryone := True\<rparr>"

definition dbTombstone :: db where
  "dbTombstone = \<lparr>conversations = [openThread], messages = [tombstone], users = threeUsers\<rparr>"

definition clearFlag :: "message \<Rightarrow> message" where
  "clearFlag m = m\<lparr>isDeletedForEveryone := False\<rparr>"

text \<open>
  In \<open>dbWatermark\<close> user 1 has hidden the conversation at time 100; user 2 sent one
  message before and one after.
\<close>

definition oldMessage :: message where
  "oldMessage = newMessage 101 50 10 2 (Some (ascii ''old'')) []"

definition recentMessage :: message where
  "recentMessage = newMessage 102 150 10 2 (Some (ascii ''new'')) []"

definition dbWatermark :: db where
  "dbWatermark =
     \<lparr>conversations = [hiddenThread], messages = [oldMessage, recentMessage], users = threeUsers\<rparr>"

text \<open>
  In \<open>dbTwoMessages\<close> and \<open>dbOneMessage\<close> the conversation's \<open>lastMessage\<close> points at
  \<open>recentMessage\<close>.
\<close>

definition threadWithLast :: conversation where
  "threadWithLast =
     openThread
       \<lparr>lastMessage := Some \<lparr>messageId = 102, lm_text = Some (ascii ''new''), sentAt = 150\<rparr>,
        conv_updatedAt := 150\<rparr>"

definition dbTwoMessages :: db where
  "dbTwoMessages =
     \<lparr>conversations = [threadWithLast], messages = [oldMessage, recentMessage], users = threeUsers\<rparr>"


text \<open>
  The frame of a soft delete by user \<open>a\<close>, between a conversation before and after: the
  same conversation, the same participants in the same order, and every participant
  record of another user equal to what it was.
\<close>

definition othersUntouched :: "objectId \<Rightarrow> conversation \<Rightarrow> conversation \<Rightarrow> bool" where
  "othersUntouched a c c' \<longleftrightarrow>
     conv_id c' = conv_id c \<and>
     list_all2 (\<lambda>p p'. userId p' = userId p \<and> (userId p \<noteq> a \<longrightarrow> p' = p))
       (participants c) (participants c')"

text \<open>
  In \<open>dbBlocked\<close> user 2 has \<open>blocked = true\<close> on the conversation. \<open>stamps\<close> are the clock
  readings and identifiers of one creating request: the handler reads the clock at 1000,
  the driver stamps the conversation at 1001 and the message at 1002.
\<close>

definition blockedThread :: conversation where
  "blockedThread =
     openThread\<lparr>participants := [newParticipant 1, (newParticipant 2)\<lparr>blocked := True\<rparr>]\<rparr>"

definition dbBlocked :: db where
  "dbBlocked = \<lparr>conversations = [blockedThread], messages = [], users = threeUsers\<rparr>"

definition stamps :: creation where
  "stamps = \<lparr>wallClock = 1000, newConvId = 20, convStamp = 1001, newMsgId = 200, msgStamp = 1002\<rparr>"

text \<open>
  The lockstep of the two per-participant fields, in the direction that every handler
  maintains: a watermark is set only on a record that is hidden.
\<close>

definition lockstep :: "participant \<Rightarrow> bool" where
  "lockstep p \<longleftrightarrow> hideMessagesBefore p = None \<or> deletedAt p \<noteq> None"

definition watermarksOnHidden :: "db \<Rightarrow> bool" where
  "watermarksOnHidden s \<longleftrightarrow>
     list_all (\<lambda>c. list_all lockstep (participants c)) (conversations s)"

section \<open>Helper lemmas\<close>

lemma find_snoc:
  "find P (xs @ [y]) =
     (case find P xs of None \<Rightarrow> (if P y then Some y else None) | Some x \<Rightarrow> Some x)"
  by (induction xs) auto

lemma newPrivate_not_blocked:
  "\<not> blockedExistingQuery a b (newPrivateConversation i t me pid)"
  by (simp add: blockedExistingQuery_def newPrivateConversation_def newParticipant_def)

lemma newPrivate_active:
  "activeQuery me pid (newPrivateConversation i t me pid)"
  by (simp add: activeQuery_def newPrivateConversation_def newParticipant_def)

lemma newPrivate_between:
  "privateBetween me pid (s\<lparr>conversations := conversations s @ [newPrivateConversation i t me pid]\<rparr>)
     = privateBetween me pid s @ [newPrivateConversation i t me pid]"
  by (simp add: privateBetween_def newPrivateConversation_def newParticipant_def)

lemma pageLimit_pos: "0 < pageLimit q"
  by (simp add: pageLimit_def split: option.split)

lemma insort_newest_map:
  assumes "\<And>m. createdAt (g m) = createdAt m"
  shows "insort_key (\<lambda>m. - createdAt m) (g x) (map g xs) = map g (insort_key (\<lambda>m. - createdAt m) x xs)"
  using assms by (induction xs) auto

lemma sortNewestFirst_map:
  assumes "\<And>m. createdAt (g m) = createdAt m"
  shows "sortNewestFirst (map g xs) = map g (sortNewestFirst xs)"
  unfolding sortNewestFirst_def
  using assms by (induction xs) (auto simp: insort_newest_map)

lemma set_sortNewestFirst: "set (sortNewestFirst ms) = set ms"
  by (simp add: sortNewestFirst_def)

lemma matches_clearFlag: "matches q (clearFlag m) = matches q m"
proof -
  have "holds k c (clearFlag m) = holds k c m" for k c
    by (cases k; cases c) (simp_all add: clearFlag_def)
  then show ?thesis
    by (simp add: matches_def split: option.split)
qed

lemma filter_matches_clearFlag:
  "filter (matches q) (map clearFlag ms) = map clearFlag (filter (matches q) ms)"
  by (induction ms) (simp_all add: matches_clearFlag)

lemma fetchMessages_clearFlag:
  "fetchMessages q n (map clearFlag ms) = map clearFlag (fetchMessages q n ms)"
  by (simp add: fetchMessages_def filter_matches_clearFlag sortNewestFirst_map clearFlag_def take_map)

lemma set_fetchMessages: "set (fetchMessages q n ms) \<subseteq> set ms"
proof -
  have "set (fetchMessages q n ms) \<subseteq> set (sortNewestFirst (filter (matches q) ms))"
    unfolding fetchMessages_def by (rule set_take_subset)
  then show ?thesis
    by (auto simp: set_sortNewestFirst)
qed

lemma fetched_matches: "m \<in> set (fetchMessages q n ms) \<Longrightarrow> matches q m"
proof -
  assume "m \<in> set (fetchMessages q n ms)"
  then have "m \<in> set (sortNewestFirst (filter (matches q) ms))"
    unfolding fetchMessages_def by (rule in_set_takeD)
  then show ?thesis
    by (simp add: set_sortNewestFirst)
qed

lemma last_take_clearFlag:
  assumes "0 < n" "n < length xs"
  shows "createdAt (last (map clearFlag (take n xs))) = createdAt (last (take n xs))"
proof -
  from assms have "take n xs \<noteq> []" by auto
  then show ?thesis
    by (simp add: last_map clearFlag_def)
qed

lemma listing_dbTombstone:
  "fst (getMessagesByConversationId 1 (IdValid 10) None DateAbsent dbTombstone) =
     Response 200
       (MessagesPage
          \<lparr>page_conversationId = 10, conversationType = Private,
           page_messages = [tombstone], nextCursor = None, hasMore = False\<rparr>)"
  by code_simp

lemma markRead_seenBy: "map seenBy (markRead c u ms) = map seenBy ms"
  by (simp add: markRead_def)

lemma markRead_only_readBy:
  "map (\<lambda>m. m\<lparr>readBy := []\<rparr>) (markRead c u ms) = map (\<lambda>m. m\<lparr>readBy := []\<rparr>) ms"
  by (simp add: markRead_def)

lemma getMessages_db:
  "snd (getMessagesByConversationId u c l b s) = s \<or>
   (\<exists>cid. snd (getMessagesByConversationId u c l b s) = s\<lparr>messages := markRead cid u (messages s)\<rparr>)"
  by (cases c; cases b)
     (auto simp: getMessagesByConversationId_def Let_def split: option.split)

lemma updateFirst_split:
  "find P xs = Some x \<Longrightarrow>
     \<exists>pre post. xs = pre @ x # post \<and> (\<forall>y \<in> set pre. \<not> P y) \<and>
       updateFirst P f xs = pre @ f x # post"
proof (induction xs)
  case Nil
  then show ?case by simp
next
  case (Cons a xs)
  show ?case
  proof (cases "P a")
    case True
    with Cons.prems have "a = x" by simp
    with True show ?thesis by fastforce
  next
    case False
    with Cons.prems have "find P xs = Some x" by simp
    from Cons.IH [OF this] obtain pre post where
      "xs = pre @ x # post" "\<forall>y \<in> set pre. \<not> P y" "updateFirst P f xs = pre @ f x # post"
      by blast
    with False have "a # xs = (a # pre) @ x # post \<and> (\<forall>y \<in> set (a # pre). \<not> P y) \<and>
       updateFirst P f (a # xs) = (a # pre) @ f x # post"
      by simp
    then show ?thesis by blast
  qed
qed

lemma find_prefix_skip:
  "\<forall>y \<in> set pre. \<not> P y \<Longrightarrow> find P (pre @ x # post) = (if P x then Some x else find P post)"
  by (induction pre) auto





lemma find_updateFirst_same:
  assumes "find P xs = Some x" "P (f x)"
  shows "find P (updateFirst P f xs) = Some (f x)"
proof -
  from updateFirst_split [OF assms(1), of f] obtain pre post where
    "\<forall>y \<in> set pre. \<not> P y" "updateFirst P f xs = pre @ f x # post"
    by blast
  with assms(2) show ?thesis
    by (simp add: find_prefix_skip)
qed

lemma find_confirms: "find P xs = Some x \<Longrightarrow> P x"
  by (induction xs) (auto split: if_splits)


lemma othersUntouched_refl: "othersUntouched a c c"
  by (simp add: othersUntouched_def list_all2_refl)

lemma list_all2_updateFirst:
  assumes "\<And>x. Q x x" "\<And>x. P x \<Longrightarrow> Q x (f x)"
  shows "list_all2 Q xs (updateFirst P f xs)"
  using assms by (induction xs) (auto simp: list_all2_refl)

lemma list_all2_replace:
  assumes "\<And>x. Q x x" "Q x x'"
  shows "list_all2 Q (pre @ x # post) (pre @ x' # post)"
  using assms by (simp add: list_all2_appendI list_all2_refl)

lemma saveConversation_frame:
  assumes "find (\<lambda>c. conv_id c = cid) cs = Some conv" "othersUntouched a conv conv'"
  shows "list_all2 (othersUntouched a) cs (saveConversation conv' cs)"
proof -
  from assms(2) have id: "conv_id conv' = conv_id conv"
    by (simp add: othersUntouched_def)
  have "conv_id conv = cid"
    using find_confirms [OF assms(1)] .
  with id have "saveConversation conv' cs = updateFirst (\<lambda>c. conv_id c = cid) (\<lambda>x. conv') cs"
    by (simp add: saveConversation_def)
  moreover from updateFirst_split [OF assms(1), of "\<lambda>x. conv'"] obtain pre post where
    "cs = pre @ conv # post" "updateFirst (\<lambda>c. conv_id c = cid) (\<lambda>x. conv') cs = pre @ conv' # post"
    by blast
  ultimately show ?thesis
    using list_all2_replace [of "othersUntouched a" conv conv' pre post] assms(2)
    by (simp add: othersUntouched_refl)
qed

lemma deleteForUser_frame:
  "list_all2 (othersUntouched a) (conversations s)
     (conversations (snd (deleteConversationForUser a c now s))) \<and>
   messages (snd (deleteConversationForUser a c now s)) = messages s"
proof (cases c)
  case (IdValid cid)
  show ?thesis
  proof (cases "find (\<lambda>c. conv_id c = cid) (conversations s)")
    case None
    with IdValid show ?thesis
      by (simp add: deleteConversationForUser_def list_all2_refl othersUntouched_refl)
  next
    case (Some conv)
    let ?conv' = "conv\<lparr>participants :=
                         map (\<lambda>p. if userId p = a then markHidden now p else p)
                           (participants conv)\<rparr>"
    have "othersUntouched a conv ?conv'"
      by (simp add: othersUntouched_def list_all2_map2 list_all2_refl markHidden_def)
    from saveConversation_frame [OF Some this] IdValid Some show ?thesis
      by (simp add: deleteConversationForUser_def Let_def)
  qed
qed (simp_all add: deleteConversationForUser_def list_all2_refl othersUntouched_refl)

lemma softDelete_cases:
  assumes "find (\<lambda>c. conv_id c = cid) (conversations s) = Some conv"
  shows "snd (softDeleteConversation (Some a) (IdValid cid) now s) = s \<or>
         snd (softDeleteConversation (Some a) (IdValid cid) now s) =
           s\<lparr>conversations :=
                saveConversation
                  (conv\<lparr>participants :=
                           updateFirst (\<lambda>p. userId p = a) (markHidden now)
                             (participants conv)\<rparr>)
                  (conversations s)\<rparr>"
proof (cases "find (\<lambda>p. userId p = a) (participants conv)")
  case None
  with assms show ?thesis
    by (simp add: softDeleteConversation_def)
next
  case (Some p)
  with assms show ?thesis
    by (simp add: softDeleteConversation_def Let_def)
qed

lemma softDelete_frame:
  "list_all2 (othersUntouched a) (conversations s)
     (conversations (snd (softDeleteConversation (Some a) c now s))) \<and>
   messages (snd (softDeleteConversation (Some a) c now s)) = messages s"
proof (cases c)
  case (IdValid cid)
  show ?thesis
  proof (cases "find (\<lambda>c. conv_id c = cid) (conversations s)")
    case None
    with IdValid show ?thesis
      by (simp add: softDeleteConversation_def list_all2_refl othersUntouched_refl)
  next
    case (Some conv)
    let ?conv' = "conv\<lparr>participants :=
                         updateFirst (\<lambda>p. userId p = a) (markHidden now)
                           (participants conv)\<rparr>"
    have "othersUntouched a conv ?conv'"
      by (simp add: othersUntouched_def list_all2_updateFirst markHidden_def)
    from saveConversation_frame [OF Some this]
    have frame: "list_all2 (othersUntouched a) (conversations s)
        (saveConversation ?conv' (conversations s))" .
    from softDelete_cases [OF Some, of a now] show ?thesis
    proof
      assume "snd (softDeleteConversation (Some a) (IdValid cid) now s) = s"
      with IdValid show ?thesis
        by (simp add: list_all2_refl othersUntouched_refl)
    next
      assume "snd (softDeleteConversation (Some a) (IdValid cid) now s) =
           s\<lparr>conversations := saveConversation ?conv' (conversations s)\<rparr>"
      with IdValid frame show ?thesis
        by simp
    qed
  qed
qed (simp_all add: softDeleteConversation_def list_all2_refl othersUntouched_refl)

lemma markHidden_own:
  assumes "p \<in> set (map (\<lambda>q. if userId q = a then markHidden now q else q) ps)" "userId p = a"
  shows "deletedAt p = Some now \<and> hideMessagesBefore p = Some now"
proof -
  from assms(1) have "p \<in> (\<lambda>q. if userId q = a then markHidden now q else q) ` set ps"
    by (simp only: set_map)
  then obtain q where p: "p = (if userId q = a then markHidden now q else q)"
    by (rule imageE)
  show ?thesis
  proof (cases "userId q = a")
    case True
    with p show ?thesis by (simp add: markHidden_def)
  next
    case False
    with p assms(2) show ?thesis by simp
  qed
qed

lemma deleteForUser_sets:
  assumes "find (\<lambda>c. conv_id c = cid) (conversations s) = Some conv"
  shows "\<exists>conv'. find (\<lambda>c. conv_id c = cid)
                   (conversations (snd (deleteConversationForUser a (IdValid cid) now s))) = Some conv' \<and>
           (\<forall>p \<in> set (participants conv').
              userId p = a \<longrightarrow> deletedAt p = Some now \<and> hideMessagesBefore p = Some now)"
proof -
  let ?conv' = "conv\<lparr>participants :=
                         map (\<lambda>p. if userId p = a then markHidden now p else p)
                           (participants conv)\<rparr>"
  have id: "conv_id conv = cid"
    using find_confirms [OF assms] .
  then have "find (\<lambda>c. conv_id c = cid) (saveConversation ?conv' (conversations s)) = Some ?conv'"
    using find_updateFirst_same [OF assms, of "\<lambda>x. ?conv'"]
    by (simp add: saveConversation_def)
  with assms have "find (\<lambda>c. conv_id c = cid)
       (conversations (snd (deleteConversationForUser a (IdValid cid) now s))) = Some ?conv'"
    by (simp add: deleteConversationForUser_def Let_def)
  moreover have "participants ?conv' =
      map (\<lambda>p. if userId p = a then markHidden now p else p) (participants conv)"
    by simp
  then have "\<forall>p \<in> set (participants ?conv').
              userId p = a \<longrightarrow> deletedAt p = Some now \<and> hideMessagesBefore p = Some now"
    using markHidden_own [of _ a now "participants conv"] by (simp only:) blast
  ultimately show ?thesis
    by blast
qed

lemma softDelete_sets:
  assumes conv: "find (\<lambda>c. conv_id c = cid) (conversations s) = Some conv"
    and p: "find (\<lambda>p. userId p = a) (participants conv) = Some p"
    and ok: "\<not> blocked p" "\<not> alreadyDeleted p"
  shows "\<exists>conv'. find (\<lambda>c. conv_id c = cid)
                   (conversations (snd (softDeleteConversation (Some a) (IdValid cid) now s))) = Some conv' \<and>
           find (\<lambda>p. userId p = a) (participants conv') = Some (markHidden now p)"
proof -
  let ?conv' = "conv\<lparr>participants :=
                         updateFirst (\<lambda>p. userId p = a) (markHidden now) (participants conv)\<rparr>"
  have "conv_id conv = cid"
    using find_confirms [OF conv] .
  then have "find (\<lambda>c. conv_id c = cid) (saveConversation ?conv' (conversations s)) = Some ?conv'"
    using find_updateFirst_same [OF conv, of "\<lambda>x. ?conv'"]
    by (simp add: saveConversation_def)
  with conv p ok have "find (\<lambda>c. conv_id c = cid)
       (conversations (snd (softDeleteConversation (Some a) (IdValid cid) now s))) = Some ?conv'"
    by (simp add: softDeleteConversation_def Let_def)
  moreover have "userId p = a"
    using find_confirms [OF p] .
  then have "find (\<lambda>p. userId p = a) (participants ?conv') = Some (markHidden now p)"
    using find_updateFirst_same [OF p, of "markHidden now"]
    by (simp add: markHidden_def)
  ultimately show ?thesis
    by blast
qed

lemma markSeen_run:
  assumes "ids \<noteq> []"
  shows "markMessagesSeen me (IdsArray ids) s =
     (Response 200 (Message ''Marked seen''),
      s\<lparr>messages :=
           map (\<lambda>m. if msg_id m \<in> set ids \<and> me \<notin> set (seenBy m) then markSeenBy me m else m)
             (messages s)\<rparr>)"
  using assms by (simp add: markMessagesSeen_def)

lemma markSeenBy_step:
  "(msg_id m \<in> set ids \<longrightarrow>
      me \<in> set (seenBy (if msg_id m \<in> set ids \<and> me \<notin> set (seenBy m) then markSeenBy me m else m))) \<and>
   (msg_id m \<notin> set ids \<longrightarrow>
      (if msg_id m \<in> set ids \<and> me \<notin> set (seenBy m) then markSeenBy me m else m) = m) \<and>
   (if msg_id m \<in> set ids \<and> me \<notin> set (seenBy m) then markSeenBy me m else m)\<lparr>seenBy := []\<rparr>
      = m\<lparr>seenBy := []\<rparr>"
  by (simp add: markSeenBy_def)

lemma deleteForEveryoneEvent_keeps_conversations:
  "conversations (snd (deleteForEveryoneEvent u p s)) = conversations s"
  by (cases p) (simp_all add: deleteForEveryoneEvent_def split: option.split)

lemma find_updateFirst_other:
  assumes "\<And>x. P x \<Longrightarrow> \<not> Q x \<and> \<not> Q (f x)"
  shows "find Q (updateFirst P f xs) = find Q xs"
  using assms by (induction xs) auto

lemma find_by_distinct_key:
  assumes "distinct (map key xs)" "x \<in> set xs"
  shows "find (\<lambda>y. key y = key x) xs = Some x"
  using assms
proof (induction xs)
  case Nil
  then show ?case by simp
next
  case (Cons a xs)
  show ?case
  proof (cases "a = x")
    case True
    then show ?thesis by simp
  next
    case False
    with Cons.prems have "x \<in> set xs" by simp
    with Cons.prems have "key a \<noteq> key x" by (auto simp: image_iff)
    with Cons \<open>x \<in> set xs\<close> show ?thesis by simp
  qed
qed

lemma find_in_set: "find P xs = Some x \<Longrightarrow> x \<in> set xs"
  by (induction xs) (auto split: if_splits)

lemma find_member:
  assumes "a \<in> set (map key xs)"
  shows "\<exists>x. find (\<lambda>y. key y = a) xs = Some x"
proof (cases "find (\<lambda>y. key y = a) xs")
  case None
  with assms show ?thesis
    by (auto simp: find_None_iff)
next
  case (Some x)
  then show ?thesis by blast
qed

lemma handlePrivate_existing:
  assumes "isNonEmptyString initialMessage" "targetId \<noteq> authUserId"
    and "find (\<lambda>u. user_id u = targetId) (users s) = Some targetUser"
    and "find (pairQuery authUserId targetId) (conversations s) = Some conv"
  shows "handlePrivateConversation authUserId (IdValid targetId) initialMessage k s =
           restoreExisting authUserId targetId conv s"
proof -
  have "user_id targetUser = targetId"
    using find_confirms [OF assms(3)] .
  with assms show ?thesis
    by (simp add: handlePrivateConversation_def)
qed

lemma restoreExisting_blocked:
  assumes "length (participants conv) = 2"
    and "find (\<lambda>p. userId p = a) (participants conv) = Some ap"
    and "find (\<lambda>p. userId p = t) (participants conv) = Some tp"
    and "blocked ap \<or> blocked tp"
  shows "restoreExisting a t conv s =
     (Response 403 (Message ''One of the participants has blocked this conversation.''), s)"
  using assms by (simp add: restoreExisting_def)

lemma restoreExisting_hidden:
  assumes "length (participants conv) = 2"
    and "find (\<lambda>p. userId p = a) (participants conv) = Some ap"
    and "find (\<lambda>p. userId p = t) (participants conv) = Some tp"
    and "\<not> blocked ap" "\<not> blocked tp" "deletedAt tp \<noteq> None"
  shows "restoreExisting a t conv s =
     (Response 403
        (Message ''The other participant has hidden this chat. They must restore it first.''), s)"
  using assms by (simp add: restoreExisting_def)

lemma restoreExisting_active:
  assumes "length (participants conv) = 2"
    and "find (\<lambda>p. userId p = a) (participants conv) = Some ap"
    and "find (\<lambda>p. userId p = t) (participants conv) = Some tp"
    and "\<not> blocked ap" "\<not> blocked tp" "deletedAt tp = None" "deletedAt ap = None"
  shows "restoreExisting a t conv s =
     (Response 200 (MessageWithConversation ''Private conversation restored.'' conv), s)"
  using assms by (simp add: restoreExisting_def)

lemma restoreExisting_restores:
  assumes "length (participants conv) = 2"
    and "find (\<lambda>p. userId p = a) (participants conv) = Some ap"
    and "find (\<lambda>p. userId p = t) (participants conv) = Some tp"
    and "\<not> blocked ap" "\<not> blocked tp" "deletedAt tp = None" "deletedAt ap \<noteq> None"
  shows "restoreExisting a t conv s =
     (Response 200
        (MessageWithConversation ''Private conversation restored.''
           (conv\<lparr>participants := updateFirst (\<lambda>p. userId p = a) markRestored (participants conv)\<rparr>)),
      s\<lparr>conversations :=
           saveConversation
             (conv\<lparr>participants := updateFirst (\<lambda>p. userId p = a) markRestored (participants conv)\<rparr>)
             (conversations s)\<rparr>)"
  using assms by (simp add: restoreExisting_def Let_def)

lemma othersUntouched_restore:
  "othersUntouched a conv
     (conv\<lparr>participants := updateFirst (\<lambda>p. userId p = a) markRestored (participants conv)\<rparr>)"
  by (simp add: othersUntouched_def list_all2_updateFirst markRestored_def)

lemma pair_participants_found:
  assumes "find (pairQuery authUserId targetId) (conversations s) = Some conv"
  shows "\<exists>ap tp. find (\<lambda>p. userId p = authUserId) (participants conv) = Some ap \<and>
                 find (\<lambda>p. userId p = targetId) (participants conv) = Some tp"
proof -
  have "pairQuery authUserId targetId conv"
    using find_confirms [OF assms] .
  then show ?thesis
    using find_member [of authUserId userId "participants conv"]
      find_member [of targetId userId "participants conv"]
    by (auto simp: pairQuery_def)
qed

lemma sendMessage_sentAt:
  assumes "sendMessage u (IdValid cid) txt atts newId stamp now s = (AckMessage msg, s')"
  shows "createdAt msg = stamp \<and> last (messages s') = msg \<and>
         (\<exists>conv'. find (\<lambda>c. conv_id c = cid) (conversations s') = Some conv' \<and>
            map_option sentAt (lastMessage conv') = Some (createdAt msg) \<and>
            map_option messageId (lastMessage conv') = Some (msg_id msg))"
proof (cases "find (\<lambda>c. conv_id c = cid) (conversations s)")
  case None
  with assms show ?thesis
    by (simp add: sendMessage_def)
next
  case (Some conv)
  let ?msg = "newMessage newId stamp cid u (map_option trim (textOrNull txt))
                (case atts of None \<Rightarrow> [] | Some a \<Rightarrow> a)"
  let ?conv' = "conv\<lparr>lastMessage :=
                    Some \<lparr>messageId = msg_id ?msg, lm_text = textOrNull txt, sentAt = createdAt ?msg\<rparr>,
                  conv_updatedAt := now\<rparr>"
  from assms Some have part: "list_ex (\<lambda>p. userId p = u) (participants conv)"
    by (auto simp: sendMessage_def split: if_splits)
  with assms Some have msg: "msg = ?msg"
    and s': "s' = s\<lparr>messages := messages s @ [?msg],
                    conversations := saveConversation ?conv' (conversations s)\<rparr>"
    by (auto simp: sendMessage_def Let_def)
  have "conv_id conv = cid"
    using find_confirms [OF Some] .
  then have "find (\<lambda>c. conv_id c = cid) (conversations s') = Some ?conv'"
    using find_updateFirst_same [OF Some, of "\<lambda>x. ?conv'"]
    by (simp add: s' saveConversation_def)
  then show ?thesis
    by (simp add: msg s' newMessage_def)
qed

lemma getOrCreate_returns_active_only:
  assumes "fst (getOrCreatePrivateConversation me (IdValid pid) newId now s) =
             Response 200 (ConversationDoc c)"
  shows "activeQuery me pid c \<and> c \<in> set (conversations s)"
proof (cases "find (blockedExistingQuery me pid) (conversations s)")
  case (Some b)
  with assms show ?thesis
    by (simp add: getOrCreatePrivateConversation_def)
next
  case None
  show ?thesis
  proof (cases "find (activeQuery me pid) (conversations s)")
    case inactive: None
    with None assms show ?thesis
      by (simp add: getOrCreatePrivateConversation_def Let_def)
  next
    case (Some a)
    with None assms have "a = c"
      by (simp add: getOrCreatePrivateConversation_def)
    with Some show ?thesis
      using find_confirms [OF Some] find_in_set [OF Some] by simp
  qed
qed

lemma getOrCreate_blocked_rejected:
  assumes "find (blockedExistingQuery me pid) (conversations s) = Some c"
  shows "getOrCreatePrivateConversation me (IdValid pid) newId now s =
           (Response 403 (Message ''Conversation not allowed''), s)"
  using assms by (simp add: getOrCreatePrivateConversation_def)

lemma matches_messageQuery:
  "matches (messageQuery cid u hideBefore beforeDate) m \<longleftrightarrow>
     conversationId m = cid \<and> u \<notin> set (deletedFor m) \<and>
     (case beforeDate of
        Some b \<Rightarrow> createdAt m < b
      | None \<Rightarrow> (case hideBefore of Some h \<Rightarrow> h < createdAt m | None \<Rightarrow> True))"
  by (simp add: matches_def messageQuery_def timeFilter_def map_add_def split: option.split)

lemma unicode_space_only_is_empty:
  "\<not> isNonEmptyString (Some [0xA0, 0x2003, 0x3000, 0xFEFF]) \<and>
   trim ([0xA0, 0x20] @ ascii ''hi'' @ [0x2028, 0x09]) = ascii ''hi''"
  by code_simp

lemma hi_nonempty: "isNonEmptyString (Some (ascii ''hi''))"
  by code_simp

lemma hiddenThread_facts:
  "find (pairQuery 1 2) (conversations dbHidden) = Some hiddenThread"
  "find (pairQuery 2 1) (conversations dbHidden) = Some hiddenThread"
  "length (participants hiddenThread) = 2"
  "find (\<lambda>p. userId p = 1) (participants hiddenThread) =
     Some ((newParticipant 1)\<lparr>deletedAt := Some 100, hideMessagesBefore := Some 100\<rparr>)"
  "find (\<lambda>p. userId p = 2) (participants hiddenThread) = Some (newParticipant 2)"
  "distinct (map conv_id (conversations dbHidden))"
  by (simp_all add: dbHidden_def hiddenThread_def openThread_def newPrivateConversation_def
      newParticipant_def pairQuery_def)

lemma blockedThread_facts:
  "find (pairQuery 1 2) (conversations dbBlocked) = Some blockedThread"
  "length (participants blockedThread) = 2"
  "find (\<lambda>p. userId p = 1) (participants blockedThread) = Some (newParticipant 1)"
  "find (\<lambda>p. userId p = 2) (participants blockedThread) = Some ((newParticipant 2)\<lparr>blocked := True\<rparr>)"
  "distinct (map conv_id (conversations dbBlocked))"
  by (simp_all add: dbBlocked_def blockedThread_def openThread_def newPrivateConversation_def
      newParticipant_def pairQuery_def)

lemma threeUsers_facts:
  "find (\<lambda>u. user_id u = 1) threeUsers = Some \<lparr>user_id = 1, username = ''alice'', isActive = True\<rparr>"
  "find (\<lambda>u. user_id u = 2) threeUsers = Some \<lparr>user_id = 2, username = ''bob'', isActive = True\<rparr>"
  by (simp_all add: threeUsers_def)

lemma listed_match_query:
  assumes "fst (getMessagesByConversationId u (IdValid cid) l b s) = Response 200 (MessagesPage pg)"
    and "m \<in> set (page_messages pg)"
  shows "\<exists>conv. find (accessQuery cid u) (conversations s) = Some conv \<and>
           matches (messageQuery (conv_id conv) u (hideBeforeOf u conv)
                      (case b of DateGiven d \<Rightarrow> Some d | _ \<Rightarrow> None)) m"
proof (cases "find (accessQuery cid u) (conversations s)")
  case None
  with assms show ?thesis
    by (simp add: getMessagesByConversationId_def)
next
  case (Some conv)
  define q where "q = messageQuery (conv_id conv) u (hideBeforeOf u conv)
                      (case b of DateGiven d \<Rightarrow> Some d | _ \<Rightarrow> None)"
  define found where "found = fetchMessages q (Suc (pageLimit l)) (messages s)"
  from assms(1) Some have "b \<noteq> DateInvalid"
    by (auto simp: getMessagesByConversationId_def)
  with assms(1) Some have "page_messages pg = rev found \<or> page_messages pg = rev (take (pageLimit l) found)"
    by (cases b) (auto simp: getMessagesByConversationId_def Let_def q_def found_def split: if_splits)
  with assms(2) have "m \<in> set found"
    by (auto dest: in_set_takeD)
  then have "matches q m"
    unfolding found_def by (rule fetched_matches)
  with Some show ?thesis
    by (simp add: q_def)
qed

lemma listing_sound_part:
  assumes "fst (getMessagesByConversationId u (IdValid cid) l b s) = Response 200 (MessagesPage pg)"
    and "m \<in> set (page_messages pg)"
  shows "u \<notin> set (deletedFor m)"
    and "b = DateAbsent \<Longrightarrow> find (accessQuery cid u) (conversations s) = Some conv \<Longrightarrow>
         hideBeforeOf u conv = Some h \<Longrightarrow> h < createdAt m"
  using listed_match_query [OF assms]
  by (auto simp: matches_messageQuery)

subsection \<open>A watermark is set only on a hidden record, in every state the handlers reach\<close>

lemma list_all_updateFirst:
  assumes "list_all P xs" "\<And>x. P x \<Longrightarrow> P (f x)"
  shows "list_all P (updateFirst Q f xs)"
  using assms by (induction xs) auto

lemma list_all_saveConversation:
  assumes "list_all P cs" "P c"
  shows "list_all P (saveConversation c cs)"
  unfolding saveConversation_def using assms by (intro list_all_updateFirst)

lemma lockstep_markHidden: "lockstep (markHidden now p)"
  by (simp add: lockstep_def markHidden_def)

lemma lockstep_markRestored: "lockstep (markRestored p)"
  by (simp add: lockstep_def markRestored_def)

lemma lockstep_newParticipant: "lockstep (newParticipant u)"
  by (simp add: lockstep_def newParticipant_def)

lemma lockstep_set_deletedAt: "lockstep (p\<lparr>deletedAt := Some now\<rparr>)"
  by (simp add: lockstep_def)

lemma lockstep_newPrivate: "list_all lockstep (participants (newPrivateConversation i t a b))"
  by (simp add: newPrivateConversation_def lockstep_newParticipant)

lemma list_all_map_if:
  assumes "list_all P xs" "\<And>x. P (f x)"
  shows "list_all P (map (\<lambda>x. if Q x then f x else x) xs)"
  using assms by (induction xs) simp_all

lemma found_conversation_lockstep:
  assumes "watermarksOnHidden s" "find P (conversations s) = Some c"
  shows "list_all lockstep (participants c)"
  using assms find_in_set [OF assms(2)]
  by (simp add: watermarksOnHidden_def list_all_iff)

lemma keep_getOrCreate:
  assumes "watermarksOnHidden s"
  shows "watermarksOnHidden (snd (getOrCreatePrivateConversation me p newId now s))"
  using assms
  by (cases p)
     (simp_all add: getOrCreatePrivateConversation_def watermarksOnHidden_def Let_def
        lockstep_newPrivate split: option.split)

lemma keep_getMessages:
  assumes "watermarksOnHidden s"
  shows "watermarksOnHidden (snd (getMessagesByConversationId u c l b s))"
  using assms getMessages_db [of u c l b s]
  by (auto simp: watermarksOnHidden_def)

lemma keep_markMessagesSeen:
  assumes "watermarksOnHidden s"
  shows "watermarksOnHidden (snd (markMessagesSeen me ids s))"
  using assms
  by (cases ids) (simp_all add: markMessagesSeen_def watermarksOnHidden_def)

lemma keep_deleteConversationForUser:
  assumes "watermarksOnHidden s"
  shows "watermarksOnHidden (snd (deleteConversationForUser me c now s))"
proof (cases c)
  case (IdValid cid)
  show ?thesis
  proof (cases "find (\<lambda>x. conv_id x = cid) (conversations s)")
    case None
    with IdValid assms show ?thesis
      by (simp add: deleteConversationForUser_def)
  next
    case (Some conv)
    have "list_all lockstep (participants conv)"
      using assms Some by (rule found_conversation_lockstep)
    then have "list_all lockstep
        (map (\<lambda>p. if userId p = me then markHidden now p else p) (participants conv))"
      by (rule list_all_map_if) (rule lockstep_markHidden)
    with assms IdValid Some show ?thesis
      by (simp add: deleteConversationForUser_def Let_def watermarksOnHidden_def
          list_all_saveConversation)
  qed
qed (use assms in \<open>simp_all add: deleteConversationForUser_def\<close>)

lemma keep_softDeleteConversation:
  assumes "watermarksOnHidden s"
  shows "watermarksOnHidden (snd (softDeleteConversation (Some a) c now s))"
proof (cases c)
  case (IdValid cid)
  show ?thesis
  proof (cases "find (\<lambda>x. conv_id x = cid) (conversations s)")
    case None
    with IdValid assms show ?thesis
      by (simp add: softDeleteConversation_def)
  next
    case (Some conv)
    have "list_all lockstep (participants conv)"
      using assms Some by (rule found_conversation_lockstep)
    then have "list_all lockstep
        (updateFirst (\<lambda>p. userId p = a) (markHidden now) (participants conv))"
      by (rule list_all_updateFirst) (rule lockstep_markHidden)
    with assms have "watermarksOnHidden
        (s\<lparr>conversations :=
             saveConversation
               (conv\<lparr>participants :=
                        updateFirst (\<lambda>p. userId p = a) (markHidden now) (participants conv)\<rparr>)
               (conversations s)\<rparr>)"
      by (simp add: watermarksOnHidden_def list_all_saveConversation)
    with assms IdValid softDelete_cases [OF Some, of a now] show ?thesis
      by auto
  qed
qed (use assms in \<open>simp_all add: softDeleteConversation_def\<close>)

lemma keep_chatDelete:
  assumes "watermarksOnHidden s"
  shows "watermarksOnHidden (snd (chatDelete u c now s))"
proof (cases c)
  case (IdValid cid)
  have "list_all (\<lambda>c. list_all lockstep (participants c))
     (updateFirst (\<lambda>c. conv_id c = cid \<and> list_ex (\<lambda>p. userId p = u) (participants c))
        (\<lambda>c. c\<lparr>participants :=
                  updateFirst (\<lambda>p. userId p = u) (\<lambda>p. p\<lparr>deletedAt := Some now\<rparr>) (participants c)\<rparr>)
        (conversations s))"
  proof (rule list_all_updateFirst)
    show "list_all (\<lambda>c. list_all lockstep (participants c)) (conversations s)"
      using assms by (simp add: watermarksOnHidden_def)
  next
    fix x :: conversation
    assume "list_all lockstep (participants x)"
    then have "list_all lockstep
        (updateFirst (\<lambda>p. userId p = u) (\<lambda>p. p\<lparr>deletedAt := Some now\<rparr>) (participants x))"
      by (rule list_all_updateFirst) (rule lockstep_set_deletedAt)
    then show "list_all lockstep
        (participants (x\<lparr>participants :=
           updateFirst (\<lambda>p. userId p = u) (\<lambda>p. p\<lparr>deletedAt := Some now\<rparr>) (participants x)\<rparr>))"
      by simp
  qed
  with IdValid show ?thesis
    by (simp add: chatDelete_def watermarksOnHidden_def)
qed (use assms in \<open>simp_all add: chatDelete_def\<close>)

lemma deleteForEveryone_conversations:
  "conversations (snd (deleteMessageForEveryone me p now s)) = conversations s \<or>
   (\<exists>conv lm. find (\<lambda>c. conv_id c = conv_id conv) (conversations s) = Some conv \<and>
      conversations (snd (deleteMessageForEveryone me p now s)) =
        saveConversation (conv\<lparr>lastMessage := lm, conv_updatedAt := now\<rparr>) (conversations s))"
proof (cases p)
  case (IdValid mid)
  show ?thesis
  proof (cases "find (\<lambda>m. msg_id m = mid) (messages s)")
    case None
    with IdValid show ?thesis
      by (simp add: deleteMessageForEveryone_def)
  next
    case (Some msg)
    show ?thesis
    proof (cases "find (\<lambda>c. conv_id c = conversationId msg) (conversations s)")
      case None
      with IdValid Some show ?thesis
        by (simp add: deleteMessageForEveryone_def Let_def)
    next
      case found: (Some conv)
      have "conv_id conv = conversationId msg"
        using find_confirms [OF found] .
      with found have "find (\<lambda>c. conv_id c = conv_id conv) (conversations s) = Some conv"
        by simp
      with IdValid Some found show ?thesis
        by (auto simp: deleteMessageForEveryone_def Let_def)
    qed
  qed
qed (simp_all add: deleteMessageForEveryone_def)

lemma keep_deleteMessageForEveryone:
  assumes "watermarksOnHidden s"
  shows "watermarksOnHidden (snd (deleteMessageForEveryone me p now s))"
  using deleteForEveryone_conversations [of me p now s]
proof
  assume "conversations (snd (deleteMessageForEveryone me p now s)) = conversations s"
  with assms show ?thesis
    by (simp add: watermarksOnHidden_def)
next
  assume "\<exists>conv lm. find (\<lambda>c. conv_id c = conv_id conv) (conversations s) = Some conv \<and>
      conversations (snd (deleteMessageForEveryone me p now s)) =
        saveConversation (conv\<lparr>lastMessage := lm, conv_updatedAt := now\<rparr>) (conversations s)"
  then obtain conv lm where found: "find (\<lambda>c. conv_id c = conv_id conv) (conversations s) = Some conv"
    and eq: "conversations (snd (deleteMessageForEveryone me p now s)) =
        saveConversation (conv\<lparr>lastMessage := lm, conv_updatedAt := now\<rparr>) (conversations s)"
    by blast
  have "list_all lockstep (participants conv)"
    using assms found by (rule found_conversation_lockstep)
  with assms show ?thesis
    by (simp add: watermarksOnHidden_def eq list_all_saveConversation)
qed

lemma keep_sendMessage:
  assumes "watermarksOnHidden s"
  shows "watermarksOnHidden (snd (sendMessage u c txt atts newId stamp now s))"
proof (cases c)
  case (IdValid cid)
  show ?thesis
  proof (cases "find (\<lambda>x. conv_id x = cid) (conversations s)")
    case None
    with IdValid assms show ?thesis
      by (simp add: sendMessage_def)
  next
    case (Some conv)
    have "list_all lockstep (participants conv)"
      using assms Some by (rule found_conversation_lockstep)
    with assms IdValid Some show ?thesis
      by (simp add: sendMessage_def Let_def watermarksOnHidden_def list_all_saveConversation)
  qed
qed (use assms in \<open>simp_all add: sendMessage_def\<close>)

lemma keep_restoreExisting:
  assumes "watermarksOnHidden s" "find P (conversations s) = Some conv"
  shows "watermarksOnHidden (snd (restoreExisting a t conv s))"
proof -
  have "list_all lockstep (participants conv)"
    using assms by (rule found_conversation_lockstep)
  then have "list_all lockstep (updateFirst (\<lambda>p. userId p = a) markRestored (participants conv))"
    by (rule list_all_updateFirst) (rule lockstep_markRestored)
  with assms(1) have saved: "watermarksOnHidden
      (s\<lparr>conversations :=
           saveConversation
             (conv\<lparr>participants := updateFirst (\<lambda>p. userId p = a) markRestored (participants conv)\<rparr>)
             (conversations s)\<rparr>)"
    by (simp add: watermarksOnHidden_def list_all_saveConversation)
  have "snd (restoreExisting a t conv s) = s \<or>
        snd (restoreExisting a t conv s) =
          s\<lparr>conversations :=
               saveConversation
                 (conv\<lparr>participants := updateFirst (\<lambda>p. userId p = a) markRestored (participants conv)\<rparr>)
                 (conversations s)\<rparr>"
    by (simp add: restoreExisting_def Let_def split: option.split)
  with assms(1) saved show ?thesis
    by auto
qed

lemma keep_handlePrivateConversation:
  assumes "watermarksOnHidden s"
  shows "watermarksOnHidden (snd (handlePrivateConversation a t txt k s))"
proof (cases t)
  case (IdValid targetId)
  show ?thesis
  proof (cases "isNonEmptyString txt \<and> targetId \<noteq> a")
    case False
    with IdValid assms show ?thesis
      by (auto simp: handlePrivateConversation_def)
  next
    case True
    show ?thesis
    proof (cases "find (\<lambda>u. user_id u = targetId) (users s)")
      case None
      with IdValid True assms show ?thesis
        by (simp add: handlePrivateConversation_def)
    next
      case (Some targetUser)
      show ?thesis
      proof (cases "find (pairQuery a targetId) (conversations s)")
        case None
        with IdValid True Some assms show ?thesis
          by (simp add: handlePrivateConversation_def createPrivateWithMessage_def Let_def
              watermarksOnHidden_def lockstep_newPrivate)
      next
        case existing: (Some conv)
        from IdValid True Some existing
        have "handlePrivateConversation a t txt k s = restoreExisting a (user_id targetUser) conv s"
          by (simp add: handlePrivateConversation_def)
        with keep_restoreExisting [OF assms existing] show ?thesis
          by simp
      qed
    qed
  qed
qed (use assms in \<open>simp_all add: handlePrivateConversation_def\<close>)

lemma keep_softDelete_any_caller:
  assumes "watermarksOnHidden s"
  shows "watermarksOnHidden (snd (softDeleteConversation authUser c now s))"
proof (cases authUser)
  case None
  with assms show ?thesis
    by (simp add: softDeleteConversation_def)
next
  case (Some a)
  with assms show ?thesis
    by (simp add: keep_softDeleteConversation)
qed

section \<open>C1: one private conversation per pair\<close>

text \<open>
  C1 as stated fails. In \<open>dbHidden\<close> one private conversation exists between users 1
  and 2, hidden by user 1. Two calls of the create/get operation by user 1 for user 2
  leave two private conversations of the pair in the database: the first call does not
  return the hidden conversation but creates a fresh one beside it.
\<close>

theorem C1_hidden_thread_duplicated:
  "length (privateBetween 1 2 dbHidden) = 1 \<and>
   length (privateBetween 1 2
     (snd (getOrCreatePrivateConversation 1 (IdValid 2) 12 102
        (snd (getOrCreatePrivateConversation 1 (IdValid 2) 11 101 dbHidden))))) = 2"
  by code_simp

text \<open>
  C1 amended. Two calls in succession for the same pair: the second call changes nothing
  in the database; the first call adds at most one conversation; a call refused by the
  block guard is refused again and changes nothing; otherwise the second call answers
  200 with the conversation that the first call returned or created. When no private
  conversation of the pair existed, exactly one exists afterwards. The conversations in
  which both sides are active (\<open>deletedAt = null\<close>) stay at most one for the pair.
\<close>

theorem C1_second_call_returns_first:
  assumes "getOrCreatePrivateConversation me (IdValid pid) id1 t1 s = (r1, s1)"
    and "getOrCreatePrivateConversation me (IdValid pid) id2 t2 s1 = (r2, s2)"
  shows "s2 = s1 \<and>
         length (conversations s1) \<le> Suc (length (conversations s)) \<and>
         (status r1 = 403 \<longrightarrow> r2 = r1 \<and> s1 = s) \<and>
         (status r1 \<noteq> 403 \<longrightarrow> r2 = Response 200 (body r1)) \<and>
         (privateBetween me pid s = [] \<longrightarrow> length (privateBetween me pid s2) = 1) \<and>
         (length (filter (activeQuery me pid) (conversations s)) \<le> 1 \<longrightarrow>
          length (filter (activeQuery me pid) (conversations s1)) \<le> 1)"
proof (cases "find (blockedExistingQuery me pid) (conversations s)")
  case (Some b)
  then have "b \<in> set (conversations s)" "blockedExistingQuery me pid b"
    by (auto simp: find_Some_iff)
  then have "b \<in> set (privateBetween me pid s)"
    by (simp add: privateBetween_def blockedExistingQuery_def)
  then have "privateBetween me pid s \<noteq> []"
    by auto
  with Some assms show ?thesis
    by (auto simp: getOrCreatePrivateConversation_def)
next
  case None
  note nb = None
  show ?thesis
  proof (cases "find (activeQuery me pid) (conversations s)")
    case (Some a)
    then have "a \<in> set (conversations s)" "activeQuery me pid a"
      by (auto simp: find_Some_iff)
    then have "a \<in> set (privateBetween me pid s)"
      by (auto simp: privateBetween_def activeQuery_def list_ex_iff)
    then have "privateBetween me pid s \<noteq> []"
      by auto
    with nb Some assms show ?thesis
      by (auto simp: getOrCreatePrivateConversation_def)
  next
    case None
    let ?c = "newPrivateConversation id1 t1 me pid"
    from None have none_active: "filter (activeQuery me pid) (conversations s) = []"
      by (simp add: find_None_iff filter_empty_conv)
    from nb None assms(1) have r1: "r1 = Response 201 (ConversationDoc ?c)"
      and s1: "s1 = s\<lparr>conversations := conversations s @ [?c]\<rparr>"
      by (auto simp: getOrCreatePrivateConversation_def Let_def)
    have "find (blockedExistingQuery me pid) (conversations s1) = None"
      using nb by (simp add: s1 find_snoc newPrivate_not_blocked)
    moreover have "find (activeQuery me pid) (conversations s1) = Some ?c"
      using None by (simp add: s1 find_snoc newPrivate_active)
    ultimately have r2: "r2 = Response 200 (ConversationDoc ?c)" and s2: "s2 = s1"
      using assms(2) by (auto simp: getOrCreatePrivateConversation_def)
    have "privateBetween me pid s1 = privateBetween me pid s @ [?c]"
      unfolding s1 by (rule newPrivate_between)
    then show ?thesis
      using r1 r2 s1 s2 none_active by (simp add: newPrivate_active)
  qed
qed

theorem C1_second_call_returns_first_witness:
  "snd (getOrCreatePrivateConversation 1 (IdValid 2) 12 102
          (snd (getOrCreatePrivateConversation 1 (IdValid 2) 11 101 dbEmpty)))
     = snd (getOrCreatePrivateConversation 1 (IdValid 2) 11 101 dbEmpty) \<and>
   fst (getOrCreatePrivateConversation 1 (IdValid 2) 12 102
          (snd (getOrCreatePrivateConversation 1 (IdValid 2) 11 101 dbEmpty)))
     = Response 200 (ConversationDoc (newPrivateConversation 11 101 1 2)) \<and>
   privateBetween 1 2 dbEmpty = [] \<and>
   length (privateBetween 1 2
     (snd (getOrCreatePrivateConversation 1 (IdValid 2) 12 102
        (snd (getOrCreatePrivateConversation 1 (IdValid 2) 11 101 dbEmpty))))) = 1"
proof -
  let ?first = "getOrCreatePrivateConversation 1 (IdValid 2) 11 101 dbEmpty"
  let ?second = "getOrCreatePrivateConversation 1 (IdValid 2) 12 102 (snd ?first)"
  have first: "fst ?first = Response 201 (ConversationDoc (newPrivateConversation 11 101 1 2))"
    by (simp add: getOrCreatePrivateConversation_def dbEmpty_def Let_def)
  have none: "privateBetween 1 2 dbEmpty = []"
    by (simp add: privateBetween_def dbEmpty_def)
  have "?first = (fst ?first, snd ?first)" and "?second = (fst ?second, snd ?second)"
    by simp_all
  note twice = C1_second_call_returns_first [OF this]
  from twice have a: "snd ?second = snd ?first" by blast
  from twice first have b: "fst ?second = Response 200 (ConversationDoc (newPrivateConversation 11 101 1 2))"
    by simp
  from twice none have c: "length (privateBetween 1 2 (snd ?second)) = 1"
    by blast
  from a b c none show ?thesis
    by blast
qed

section \<open>C2: messages deleted for everyone in the listing\<close>

text \<open>
  C2 as stated fails. The only message of \<open>dbTombstone\<close> has
  \<open>isDeletedForEveryone = true\<close>; the listing for user 1 returns it with its stored text
  and attachment.
\<close>

theorem C2_tombstone_text_served:
  "isDeletedForEveryone tombstone \<and>
   msg_text tombstone = Some (ascii ''secret'') \<and>
   attachments tombstone = [\<lparr>att_type = Image, url = ''u''\<rparr>] \<and>
   fst (getMessagesByConversationId 1 (IdValid 10) None DateAbsent dbTombstone) =
     Response 200
       (MessagesPage
          \<lparr>page_conversationId = 10, conversationType = Private,
           page_messages = [tombstone], nextCursor = None, hasMore = False\<rparr>)"
  by code_simp

text \<open>
  C2 amended. A message deleted for everyone keeps its row in the listing, and the row
  is the stored document: every returned row is a message of the collection as stored
  (text and attachments included), and the deletion flag has no part in the selection:
  on the database in which no message carries the flag the listing answers with the same
  rows, cursor and \<open>hasMore\<close>, the rows differing in the flag only.
\<close>

theorem C2_rows_returned_as_stored:
  assumes "fst (getMessagesByConversationId u c l b s) = Response 200 (MessagesPage pg)"
  shows "set (page_messages pg) \<subseteq> set (messages s) \<and>
         fst (getMessagesByConversationId u c l b (s\<lparr>messages := map clearFlag (messages s)\<rparr>)) =
           Response 200 (MessagesPage (pg\<lparr>page_messages := map clearFlag (page_messages pg)\<rparr>))"
proof (cases c)
  case (IdValid cid)
  show ?thesis
  proof (cases "find (accessQuery cid u) (conversations s)")
    case None
    with IdValid assms show ?thesis
      by (simp add: getMessagesByConversationId_def)
  next
    case (Some conv)
    define d where "d = (case b of DateGiven x \<Rightarrow> Some x | _ \<Rightarrow> None)"
    define q where "q = messageQuery (conv_id conv) u (hideBeforeOf u conv) d"
    define n where "n = pageLimit l"
    define found where "found = fetchMessages q (Suc n) (messages s)"
    from assms IdValid Some have valid: "b \<noteq> DateInvalid"
      by (auto simp: getMessagesByConversationId_def)
    have run: "fst (getMessagesByConversationId u c l b t) =
        Response 200 (MessagesPage
          \<lparr>page_conversationId = conv_id conv, conversationType = conv_type conv,
           page_messages =
             rev (if n < length (fetchMessages q (Suc n) (messages t))
                  then take n (fetchMessages q (Suc n) (messages t))
                  else fetchMessages q (Suc n) (messages t)),
           nextCursor =
             (if n < length (fetchMessages q (Suc n) (messages t))
              then Some (createdAt (last (take n (fetchMessages q (Suc n) (messages t)))))
              else None),
           hasMore = (n < length (fetchMessages q (Suc n) (messages t)))\<rparr>)"
      if "conversations t = conversations s" for t
      using valid IdValid Some that
      by (cases b) (simp_all add: getMessagesByConversationId_def Let_def q_def n_def d_def)
    have pos: "0 < n"
      by (simp add: n_def pageLimit_pos)
    have cleared: "fetchMessages q (Suc n) (map clearFlag (messages s)) = map clearFlag found"
      by (simp add: found_def fetchMessages_clearFlag)
    show ?thesis
    proof (cases "n < length found")
      case True
      from run [of s] assms True have pg: "pg =
          \<lparr>page_conversationId = conv_id conv, conversationType = conv_type conv,
           page_messages = rev (take n found),
           nextCursor = Some (createdAt (last (take n found))), hasMore = True\<rparr>"
        by (simp add: found_def)
      have "set (take n found) \<subseteq> set (messages s)"
        using set_take_subset [of n found] set_fetchMessages [of q "Suc n" "messages s"]
        by (simp add: found_def)
      moreover have "createdAt (last (map clearFlag (take n found))) = createdAt (last (take n found))"
        using pos True by (rule last_take_clearFlag)
      ultimately show ?thesis
        using run [of "s\<lparr>messages := map clearFlag (messages s)\<rparr>"] True
        by (simp add: cleared pg take_map rev_map)
    next
      case False
      from run [of s] assms False have pg: "pg =
          \<lparr>page_conversationId = conv_id conv, conversationType = conv_type conv,
           page_messages = rev found, nextCursor = None, hasMore = False\<rparr>"
        by (simp add: found_def)
      have "set found \<subseteq> set (messages s)"
        unfolding found_def by (rule set_fetchMessages)
      then show ?thesis
        using run [of "s\<lparr>messages := map clearFlag (messages s)\<rparr>"] False
        by (simp add: cleared pg rev_map)
    qed
  qed
qed (use assms in \<open>simp_all add: getMessagesByConversationId_def\<close>)

theorem C2_rows_returned_as_stored_witness:
  "set [tombstone] \<subseteq> set (messages dbTombstone) \<and>
   fst (getMessagesByConversationId 1 (IdValid 10) None DateAbsent
          (dbTombstone\<lparr>messages := map clearFlag (messages dbTombstone)\<rparr>)) =
     Response 200
       (MessagesPage
          \<lparr>page_conversationId = 10, conversationType = Private,
           page_messages = [clearFlag tombstone], nextCursor = None, hasMore = False\<rparr>)"
  using C2_rows_returned_as_stored [OF listing_dbTombstone] by simp

section \<open>C3: chat:delete against its REST counterpart\<close>

text \<open>
  C3 at a concrete request. User 1 deletes conversation 10 for themselves at time 7.
  The realtime event sets \<open>deletedAt\<close> only and leaves \<open>hideMessagesBefore = null\<close>; the
  REST handler sets both. For an unknown conversation the event acknowledges success,
  the REST handler answers 404.
\<close>

theorem C3_chat_delete_leaves_watermark:
  "snd (chatDelete 1 (IdValid 10) 7 dbOpen) =
     dbOpen\<lparr>conversations :=
       [openThread\<lparr>participants := [(newParticipant 1)\<lparr>deletedAt := Some 7\<rparr>, newParticipant 2]\<rparr>]\<rparr> \<and>
   snd (deleteConversationForUser 1 (IdValid 10) 7 dbOpen) =
     dbOpen\<lparr>conversations :=
       [openThread\<lparr>participants :=
          [(newParticipant 1)\<lparr>deletedAt := Some 7, hideMessagesBefore := Some 7\<rparr>,
           newParticipant 2]\<rparr>]\<rparr> \<and>
   fst (chatDelete 1 (IdValid 99) 7 dbOpen) = AckOk \<and>
   fst (deleteConversationForUser 1 (IdValid 99) 7 dbOpen) =
     Response 404 (Message ''Conversation not found'')"
  by code_simp

section \<open>C4: an existing private conversation on the two creating routes\<close>

text \<open>
  C4 as stated fails on \<open>POST /private\<close>. In \<open>dbHidden\<close> the private conversation of
  users 1 and 2 is hidden by user 1. A request of user 2 (the other side's \<open>deletedAt\<close> is
  set) is not refused: it is answered 201 and a fresh conversation is created. A request
  of user 1 (the requester's own record is hidden) restores nothing: the hidden
  conversation stays as it is and a fresh one is created beside it.
\<close>

theorem C4_private_route_creates_fresh:
  "map deletedAt (participants hiddenThread) = [Some 100, None] \<and>
   getOrCreatePrivateConversation 2 (IdValid 1) 11 101 dbHidden =
     (Response 201 (ConversationDoc (newPrivateConversation 11 101 2 1)),
      dbHidden\<lparr>conversations := [hiddenThread, newPrivateConversation 11 101 2 1]\<rparr>) \<and>
   getOrCreatePrivateConversation 1 (IdValid 2) 11 101 dbHidden =
     (Response 201 (ConversationDoc (newPrivateConversation 11 101 1 2)),
      dbHidden\<lparr>conversations := [hiddenThread, newPrivateConversation 11 101 1 2]\<rparr>)"
  by code_simp

text \<open>
  C4 amended, route by route. On \<open>POST /create-con\<close> (\<open>handlePrivateConversation\<close>): a
  valid create request of \<open>authUserId\<close> for \<open>targetId\<close> finds the private conversation
  \<open>conv\<close> of the pair, with its two participant records \<open>ap\<close> (the requester's) and \<open>tp\<close>
  (the other side's). If either record has \<open>blocked = true\<close> the answer is 403 (blocked)
  and the database is unchanged; otherwise, if \<open>tp\<close> has \<open>deletedAt\<close> set, the answer is
  403 (hidden by the other side) and the database is unchanged; otherwise the answer is
  200 with the conversation, in which the requester's record is \<open>ap\<close> with \<open>deletedAt\<close>
  and \<open>hideMessagesBefore\<close> cleared if \<open>ap\<close> was hidden and \<open>ap\<close> itself if not, so that
  \<open>deletedAt = null\<close> and, for a record that carried a watermark only while hidden
  (\<open>lockstep\<close>), \<open>hideMessagesBefore = null\<close>; the other side's record is \<open>tp\<close> as
  before, and no record of another user, no other conversation, no message and no user
  changes. On \<open>POST /private\<close> (\<open>getOrCreatePrivateConversation\<close>), for every requester
  \<open>me\<close>, other user \<open>pid\<close> and database \<open>d\<close>: if a private conversation of the pair has a
  blocked participant, the answer is 403 and the database is unchanged; otherwise, if a
  private conversation has both sides active, it is returned and the database is
  unchanged; otherwise (each existing conversation of the pair is hidden by one side) the
  answer is 201 with a fresh conversation, appended to the unchanged existing documents:
  this route neither answers Forbidden for a hidden conversation nor restores one.
\<close>

theorem C4_create_or_restore_existing:
  assumes req: "isNonEmptyString initialMessage" "targetId \<noteq> authUserId"
    and user: "find (\<lambda>u. user_id u = targetId) (users s) = Some targetUser"
    and existing: "find (pairQuery authUserId targetId) (conversations s) = Some conv"
    and two: "length (participants conv) = 2"
    and ap: "find (\<lambda>p. userId p = authUserId) (participants conv) = Some ap"
    and tp: "find (\<lambda>p. userId p = targetId) (participants conv) = Some tp"
    and ids: "distinct (map conv_id (conversations s))"
    and run: "handlePrivateConversation authUserId (IdValid targetId) initialMessage k s = (r, s')"
  shows "(blocked ap \<or> blocked tp \<longrightarrow>
         r = Response 403 (Message ''One of the participants has blocked this conversation.'') \<and>
         s' = s) \<and>
      (\<not> blocked ap \<and> \<not> blocked tp \<and> deletedAt tp \<noteq> None \<longrightarrow>
         r = Response 403
               (Message ''The other participant has hidden this chat. They must restore it first.'') \<and>
         s' = s) \<and>
      (\<not> blocked ap \<and> \<not> blocked tp \<and> deletedAt tp = None \<longrightarrow>
         (\<exists>conv' ap'.
            r = Response 200 (MessageWithConversation ''Private conversation restored.'' conv') \<and>
            find (\<lambda>c. conv_id c = conv_id conv) (conversations s') = Some conv' \<and>
            find (\<lambda>p. userId p = authUserId) (participants conv') = Some ap' \<and>
            ap' = (if deletedAt ap = None then ap else markRestored ap) \<and>
            deletedAt ap' = None \<and>
            (lockstep ap \<longrightarrow> hideMessagesBefore ap' = None) \<and>
            find (\<lambda>p. userId p = targetId) (participants conv') = Some tp \<and>
            list_all2 (othersUntouched authUserId) (conversations s) (conversations s') \<and>
            messages s' = messages s \<and> users s' = users s)) \<and>
      (find (blockedExistingQuery me pid) (conversations d) = Some blockedDoc \<longrightarrow>
         getOrCreatePrivateConversation me (IdValid pid) freshId stamp d =
           (Response 403 (Message ''Conversation not allowed''), d)) \<and>
      (find (blockedExistingQuery me pid) (conversations d) = None \<and>
       find (activeQuery me pid) (conversations d) = Some activeDoc \<longrightarrow>
         getOrCreatePrivateConversation me (IdValid pid) freshId stamp d =
           (Response 200 (ConversationDoc activeDoc), d)) \<and>
      (find (blockedExistingQuery me pid) (conversations d) = None \<and>
       find (activeQuery me pid) (conversations d) = None \<longrightarrow>
         getOrCreatePrivateConversation me (IdValid pid) freshId stamp d =
           (Response 201 (ConversationDoc (newPrivateConversation freshId stamp me pid)),
            d\<lparr>conversations :=
                 conversations d @ [newPrivateConversation freshId stamp me pid]\<rparr>))"
    (is "(?blocked \<longrightarrow> ?refused) \<and> (?hidden \<longrightarrow> ?forbidden) \<and> (?active \<longrightarrow> ?restored) \<and>
         ?guard \<and> ?reuse \<and> ?fresh")
proof -
  let ?ps = "participants conv"
  have ap_id: "userId ap = authUserId"
    using find_confirms [OF ap] .
  have run': "restoreExisting authUserId targetId conv s = (r, s')"
    using handlePrivate_existing [OF req user existing, of k] run by simp
  have by_id: "find (\<lambda>c. conv_id c = conv_id conv) (conversations s) = Some conv"
    using ids find_in_set [OF existing] by (rule find_by_distinct_key)
  have blocked_case: "r = Response 403 (Message ''One of the participants has blocked this conversation.'') \<and> s' = s"
    if "blocked ap \<or> blocked tp"
    using restoreExisting_blocked [OF two ap tp that, of s] run' by simp
  have hidden_case: "r = Response 403
               (Message ''The other participant has hidden this chat. They must restore it first.'') \<and>
         s' = s"
    if "\<not> blocked ap \<and> \<not> blocked tp \<and> deletedAt tp \<noteq> None"
    using restoreExisting_hidden [OF two ap tp, of s] that run' by simp
  have ok_case: "\<exists>conv' ap'.
            r = Response 200 (MessageWithConversation ''Private conversation restored.'' conv') \<and>
            find (\<lambda>c. conv_id c = conv_id conv) (conversations s') = Some conv' \<and>
            find (\<lambda>p. userId p = authUserId) (participants conv') = Some ap' \<and>
            ap' = (if deletedAt ap = None then ap else markRestored ap) \<and>
            deletedAt ap' = None \<and>
            (lockstep ap \<longrightarrow> hideMessagesBefore ap' = None) \<and>
            find (\<lambda>p. userId p = targetId) (participants conv') = Some tp \<and>
            list_all2 (othersUntouched authUserId) (conversations s) (conversations s') \<and>
            messages s' = messages s \<and> users s' = users s"
    if ok: "\<not> blocked ap \<and> \<not> blocked tp \<and> deletedAt tp = None"
  proof (cases "deletedAt ap = None")
    case True
    from restoreExisting_active [OF two ap tp, of s] ok True run'
    have "r = Response 200 (MessageWithConversation ''Private conversation restored.'' conv)"
      and "s' = s"
      by simp_all
    with True ap tp by_id show ?thesis
      by (simp add: list_all2_refl othersUntouched_refl lockstep_def)
  next
    case False
    let ?conv' = "conv\<lparr>participants := updateFirst (\<lambda>p. userId p = authUserId) markRestored ?ps\<rparr>"
    from restoreExisting_restores [OF two ap tp, of s] ok False run'
    have r: "r = Response 200 (MessageWithConversation ''Private conversation restored.'' ?conv')"
      and s': "s' = s\<lparr>conversations := saveConversation ?conv' (conversations s)\<rparr>"
      by simp_all
    have c1: "find (\<lambda>c. conv_id c = conv_id conv) (conversations s') = Some ?conv'"
      using find_updateFirst_same [OF by_id, of "\<lambda>x. ?conv'"]
      by (simp add: s' saveConversation_def)
    have c2: "find (\<lambda>p. userId p = authUserId) (participants ?conv') = Some (markRestored ap)"
      using find_updateFirst_same [OF ap, of markRestored] ap_id
      by (simp add: markRestored_def)
    have c3: "find (\<lambda>p. userId p = targetId) (participants ?conv') = Some tp"
      using find_updateFirst_other [of "\<lambda>p. userId p = authUserId" "\<lambda>p. userId p = targetId" markRestored ?ps]
        req(2) tp
      by (simp add: markRestored_def)
    have c4: "list_all2 (othersUntouched authUserId) (conversations s) (conversations s')"
      using saveConversation_frame [OF by_id othersUntouched_restore [of authUserId conv]]
      by (simp add: s')
    have c5: "deletedAt (markRestored ap) = None" "hideMessagesBefore (markRestored ap) = None"
      by (simp_all add: markRestored_def)
    have c6: "markRestored ap = (if deletedAt ap = None then ap else markRestored ap)"
      using False by (simp only: if_False)
    from r c1 c2 c3 c4 c5 c6 show ?thesis
      unfolding s' by (intro exI [of _ ?conv'] exI [of _ "markRestored ap"] conjI impI) simp_all
  qed
  have "?blocked \<longrightarrow> ?refused"
    by (rule impI) (rule blocked_case)
  moreover have "?hidden \<longrightarrow> ?forbidden"
    by (rule impI) (rule hidden_case)
  moreover have "?active \<longrightarrow> ?restored"
    by (rule impI) (rule ok_case)
  moreover have "?guard"
    by (simp add: getOrCreatePrivateConversation_def)
  moreover have "?reuse"
    by (simp add: getOrCreatePrivateConversation_def)
  moreover have "?fresh"
    by (simp add: getOrCreatePrivateConversation_def Let_def)
  ultimately show ?thesis
    by (intro conjI)
qed

theorem C4_create_or_restore_existing_witness:
  "(\<exists>conv'. fst (handlePrivateConversation 1 (IdValid 2) (Some (ascii ''hi'')) stamps dbHidden) =
               Response 200 (MessageWithConversation ''Private conversation restored.'' conv') \<and>
             find (\<lambda>p. userId p = 1) (participants conv') = Some (newParticipant 1) \<and>
             find (\<lambda>p. userId p = 2) (participants conv') = Some (newParticipant 2)) \<and>
   handlePrivateConversation 2 (IdValid 1) (Some (ascii ''hi'')) stamps dbHidden =
     (Response 403
        (Message ''The other participant has hidden this chat. They must restore it first.''),
      dbHidden) \<and>
   handlePrivateConversation 1 (IdValid 2) (Some (ascii ''hi'')) stamps dbBlocked =
     (Response 403 (Message ''One of the participants has blocked this conversation.''), dbBlocked) \<and>
   getOrCreatePrivateConversation 1 (IdValid 2) 11 101 dbBlocked =
     (Response 403 (Message ''Conversation not allowed''), dbBlocked) \<and>
   getOrCreatePrivateConversation 1 (IdValid 2) 11 101 dbOpen =
     (Response 200 (ConversationDoc openThread), dbOpen) \<and>
   getOrCreatePrivateConversation 2 (IdValid 1) 11 101 dbHidden =
     (Response 201 (ConversationDoc (newPrivateConversation 11 101 2 1)),
      dbHidden\<lparr>conversations := conversations dbHidden @ [newPrivateConversation 11 101 2 1]\<rparr>)"
proof -
  let ?hidden1 = "(newParticipant 1)\<lparr>deletedAt := Some 100, hideMessagesBefore := Some 100\<rparr>"
  let ?restore = "handlePrivateConversation 1 (IdValid 2) (Some (ascii ''hi'')) stamps dbHidden"
  let ?refuse = "handlePrivateConversation 2 (IdValid 1) (Some (ascii ''hi'')) stamps dbHidden"
  let ?block = "handlePrivateConversation 1 (IdValid 2) (Some (ascii ''hi'')) stamps dbBlocked"
  have users_hidden: "users dbHidden = threeUsers" and users_blocked: "users dbBlocked = threeUsers"
    by (simp_all add: dbHidden_def dbBlocked_def)
  have restored: "markRestored ?hidden1 = newParticipant 1"
    by (simp add: markRestored_def newParticipant_def)
  have flags: "\<not> blocked ?hidden1" "\<not> blocked (newParticipant 2)" "\<not> blocked (newParticipant 1)"
    "deletedAt (newParticipant 2) = None" "deletedAt ?hidden1 \<noteq> None"
    "blocked ((newParticipant 2)\<lparr>blocked := True\<rparr>)"
    by (simp_all add: newParticipant_def)
  have "(1::nat) \<noteq> 2" and "(2::nat) \<noteq> 1"
    by simp_all
  have "?restore = (fst ?restore, snd ?restore)"
    by simp
  note restore_request = C4_create_or_restore_existing [OF hi_nonempty \<open>(2::nat) \<noteq> 1\<close>
      threeUsers_facts(2) [folded users_hidden] hiddenThread_facts(1) hiddenThread_facts(3)
      hiddenThread_facts(4) hiddenThread_facts(5) hiddenThread_facts(6) this]
  from restore_request [THEN conjunct2, THEN conjunct2, THEN conjunct1] flags restored
  have a: "\<exists>conv'. fst ?restore =
               Response 200 (MessageWithConversation ''Private conversation restored.'' conv') \<and>
             find (\<lambda>p. userId p = 1) (participants conv') = Some (newParticipant 1) \<and>
             find (\<lambda>p. userId p = 2) (participants conv') = Some (newParticipant 2)"
    by auto
  have "?refuse = (fst ?refuse, snd ?refuse)"
    by simp
  note refuse_request = C4_create_or_restore_existing [OF hi_nonempty \<open>(1::nat) \<noteq> 2\<close>
      threeUsers_facts(1) [folded users_hidden] hiddenThread_facts(2) hiddenThread_facts(3)
      hiddenThread_facts(5) hiddenThread_facts(4) hiddenThread_facts(6) this]
  from refuse_request [THEN conjunct2, THEN conjunct1] flags
  have b: "?refuse =
     (Response 403
        (Message ''The other participant has hidden this chat. They must restore it first.''),
      dbHidden)"
    by (simp add: prod_eq_iff)
  have "?block = (fst ?block, snd ?block)"
    by simp
  note blocked_request = C4_create_or_restore_existing [OF hi_nonempty \<open>(2::nat) \<noteq> 1\<close>
      threeUsers_facts(2) [folded users_blocked] blockedThread_facts(1) blockedThread_facts(2)
      blockedThread_facts(3) blockedThread_facts(4) blockedThread_facts(5) this]
  from blocked_request [THEN conjunct1] flags
  have c: "?block =
     (Response 403 (Message ''One of the participants has blocked this conversation.''), dbBlocked)"
    by (simp add: prod_eq_iff)
  have guard: "find (blockedExistingQuery 1 2) (conversations dbBlocked) = Some blockedThread"
    by code_simp
  have reuse: "find (blockedExistingQuery 1 2) (conversations dbOpen) = None"
    "find (activeQuery 1 2) (conversations dbOpen) = Some openThread"
    by code_simp+
  have fresh: "find (blockedExistingQuery 2 1) (conversations dbHidden) = None"
    "find (activeQuery 2 1) (conversations dbHidden) = None"
    by code_simp+
  note private_route = blocked_request [THEN conjunct2, THEN conjunct2, THEN conjunct2]
  from private_route [THEN conjunct1, of 1 2 dbBlocked blockedThread 11 101] guard
  have e: "getOrCreatePrivateConversation 1 (IdValid 2) 11 101 dbBlocked =
     (Response 403 (Message ''Conversation not allowed''), dbBlocked)"
    by blast
  from private_route [THEN conjunct2, THEN conjunct1, of 1 2 dbOpen openThread 11 101] reuse
  have f: "getOrCreatePrivateConversation 1 (IdValid 2) 11 101 dbOpen =
     (Response 200 (ConversationDoc openThread), dbOpen)"
    by blast
  from private_route [THEN conjunct2, THEN conjunct2, of 2 1 dbHidden 11 101] fresh
  have g: "getOrCreatePrivateConversation 2 (IdValid 1) 11 101 dbHidden =
     (Response 201 (ConversationDoc (newPrivateConversation 11 101 2 1)),
      dbHidden\<lparr>conversations := conversations dbHidden @ [newPrivateConversation 11 101 2 1]\<rparr>)"
    by blast
  from a b c e f g show ?thesis
    by (intro conjI)
qed

section \<open>C5: the listing and the viewer's watermark\<close>

text \<open>
  C5 at a page request with a cursor. User 1 has the watermark 100 on the conversation;
  \<open>oldMessage\<close> was created at 50. With \<open>before = 200\<close> the listing returns it: the
  \<open>createdAt\<close> key of the cursor replaces the \<open>createdAt\<close> key of the watermark in the
  filter object. Without a cursor the same request returns \<open>recentMessage\<close> only.
\<close>

theorem C5_cursor_drops_watermark:
  "hideBeforeOf 1 hiddenThread = Some 100 \<and>
   createdAt oldMessage = 50 \<and>
   fst (getMessagesByConversationId 1 (IdValid 10) None (DateGiven 200) dbWatermark) =
     Response 200
       (MessagesPage
          \<lparr>page_conversationId = 10, conversationType = Private,
           page_messages = [oldMessage, recentMessage], nextCursor = None, hasMore = False\<rparr>) \<and>
   fst (getMessagesByConversationId 1 (IdValid 10) None DateAbsent dbWatermark) =
     Response 200
       (MessagesPage
          \<lparr>page_conversationId = 10, conversationType = Private,
           page_messages = [recentMessage], nextCursor = None, hasMore = False\<rparr>)"
  by code_simp

section \<open>C6: deleting the last message for everyone\<close>



section \<open>C7: the timestamp of the lastMessage snapshot\<close>

text \<open>
  C7 at a concrete request. User 1 starts a private conversation with user 2 with a
  first message. The handler read the clock at 1000 and the message was stamped
  \<open>createdAt = 1002\<close>; the stored \<open>lastMessage.sentAt\<close> is 1000, the handler's own
  reading, not the message's \<open>createdAt\<close>.
\<close>

theorem C7_private_creation_uses_wall_clock:
  "snd (handlePrivateConversation 1 (IdValid 2) (Some (ascii ''hi'')) stamps dbEmpty) =
     dbEmpty
       \<lparr>conversations :=
          [(newPrivateConversation 20 1001 1 2)
             \<lparr>lastMessage := Some \<lparr>messageId = 200, lm_text = Some (ascii ''hi''), sentAt = 1000\<rparr>\<rparr>],
        messages := [newMessage 200 1002 20 1 (Some (ascii ''hi'')) []]\<rparr> \<and>
   createdAt (newMessage 200 1002 20 1 (Some (ascii ''hi'')) []) = 1002"
  by code_simp

section \<open>C8: a soft delete touches the caller's participant record only\<close>

text \<open>
  C8. For both delete-conversation-for-me handlers and every request of user \<open>a\<close>: each
  conversation keeps its participants, the records of all users other than \<open>a\<close> are
  unchanged, and no message changes. Where the handlers write, they set \<open>deletedAt\<close> and
  \<open>hideMessagesBefore\<close> of the caller's record to \<open>now\<close>.
\<close>

theorem C8_soft_delete_touches_own_record_only:
  "list_all2 (othersUntouched a) (conversations s)
     (conversations (snd (deleteConversationForUser a c now s))) \<and>
   messages (snd (deleteConversationForUser a c now s)) = messages s \<and>
   list_all2 (othersUntouched a) (conversations s)
     (conversations (snd (softDeleteConversation (Some a) c now s))) \<and>
   messages (snd (softDeleteConversation (Some a) c now s)) = messages s \<and>
   (\<forall>cid conv. c = IdValid cid \<and> find (\<lambda>x. conv_id x = cid) (conversations s) = Some conv \<longrightarrow>
      (\<exists>conv'. find (\<lambda>x. conv_id x = cid)
                  (conversations (snd (deleteConversationForUser a c now s))) = Some conv' \<and>
         (\<forall>p \<in> set (participants conv').
            userId p = a \<longrightarrow> deletedAt p = Some now \<and> hideMessagesBefore p = Some now))) \<and>
   (\<forall>cid conv p. c = IdValid cid \<and> find (\<lambda>x. conv_id x = cid) (conversations s) = Some conv \<and>
        find (\<lambda>x. userId x = a) (participants conv) = Some p \<and>
        \<not> blocked p \<and> \<not> alreadyDeleted p \<longrightarrow>
      (\<exists>conv'. find (\<lambda>x. conv_id x = cid)
                  (conversations (snd (softDeleteConversation (Some a) c now s))) = Some conv' \<and>
         find (\<lambda>x. userId x = a) (participants conv') = Some (markHidden now p)))"
proof (intro conjI allI impI)
  show "list_all2 (othersUntouched a) (conversations s)
     (conversations (snd (deleteConversationForUser a c now s)))"
    using deleteForUser_frame [of a s c now] by (rule conjunct1)
  show "messages (snd (deleteConversationForUser a c now s)) = messages s"
    using deleteForUser_frame [of a s c now] by (rule conjunct2)
  show "list_all2 (othersUntouched a) (conversations s)
     (conversations (snd (softDeleteConversation (Some a) c now s)))"
    using softDelete_frame [of a s c now] by (rule conjunct1)
  show "messages (snd (softDeleteConversation (Some a) c now s)) = messages s"
    using softDelete_frame [of a s c now] by (rule conjunct2)
next
  fix cid conv
  assume "c = IdValid cid \<and> find (\<lambda>x. conv_id x = cid) (conversations s) = Some conv"
  then show "\<exists>conv'. find (\<lambda>x. conv_id x = cid)
                  (conversations (snd (deleteConversationForUser a c now s))) = Some conv' \<and>
         (\<forall>p \<in> set (participants conv').
            userId p = a \<longrightarrow> deletedAt p = Some now \<and> hideMessagesBefore p = Some now)"
    using deleteForUser_sets [of cid s conv a now] by simp
next
  fix cid conv p
  assume "c = IdValid cid \<and> find (\<lambda>x. conv_id x = cid) (conversations s) = Some conv \<and>
        find (\<lambda>x. userId x = a) (participants conv) = Some p \<and>
        \<not> blocked p \<and> \<not> alreadyDeleted p"
  then show "\<exists>conv'. find (\<lambda>x. conv_id x = cid)
                  (conversations (snd (softDeleteConversation (Some a) c now s))) = Some conv' \<and>
         find (\<lambda>x. userId x = a) (participants conv') = Some (markHidden now p)"
    using softDelete_sets [of cid s conv a p now] by simp
qed

theorem C8_soft_delete_touches_own_record_only_witness:
  "list_all2 (othersUntouched 1) (conversations dbOpen)
     (conversations (snd (softDeleteConversation (Some 1) (IdValid 10) 7 dbOpen))) \<and>
   list_all2 (othersUntouched 1) (conversations dbOpen)
     (conversations (snd (deleteConversationForUser 1 (IdValid 10) 7 dbOpen))) \<and>
   (\<exists>conv'. find (\<lambda>x. conv_id x = 10)
               (conversations (snd (softDeleteConversation (Some 1) (IdValid 10) 7 dbOpen))) = Some conv' \<and>
      find (\<lambda>x. userId x = 1) (participants conv') = Some (markHidden 7 (newParticipant 1)) \<and>
      find (\<lambda>x. userId x = 2) (participants conv') = Some (newParticipant 2))"
proof -
  let ?s' = "snd (softDeleteConversation (Some 1) (IdValid 10) 7 dbOpen)"
  note frame = C8_soft_delete_touches_own_record_only [of 1 dbOpen "IdValid 10" 7]
  have conv: "find (\<lambda>x. conv_id x = 10) (conversations dbOpen) = Some openThread"
    by (simp add: dbOpen_def openThread_def newPrivateConversation_def)
  have p: "find (\<lambda>x. userId x = 1) (participants openThread) = Some (newParticipant 1)"
    by (simp add: openThread_def newPrivateConversation_def newParticipant_def)
  have ok: "\<not> blocked (newParticipant 1)" "\<not> alreadyDeleted (newParticipant 1)"
    by (simp_all add: newParticipant_def alreadyDeleted_def)
  from frame conv p ok obtain conv' where
    c': "find (\<lambda>x. conv_id x = 10) (conversations ?s') = Some conv'"
      "find (\<lambda>x. userId x = 1) (participants conv') = Some (markHidden 7 (newParticipant 1))"
    by blast
  have "find (\<lambda>x. conv_id x = 10) (conversations ?s') =
      Some (openThread\<lparr>participants := [markHidden 7 (newParticipant 1), newParticipant 2]\<rparr>)"
    by (simp add: softDeleteConversation_def dbOpen_def openThread_def newPrivateConversation_def
        newParticipant_def alreadyDeleted_def saveConversation_def Let_def)
  with c'(1) have "find (\<lambda>x. userId x = 2) (participants conv') = Some (newParticipant 2)"
    by (auto simp: markHidden_def newParticipant_def)
  with c' frame show ?thesis
    by blast
qed

section \<open>C9: the listing does not mark messages as seen\<close>

text \<open>
  C9. Whatever the request, the listing leaves \<open>seenBy\<close> of every message as it was:
  the messages after the call differ from the messages before in \<open>readBy\<close> at most, and
  the conversations are unchanged. (A driver that discards updates of paths outside the
  schema does not even write \<open>readBy\<close>.)
\<close>

theorem C9_listing_leaves_seenBy:
  "map seenBy (messages (snd (getMessagesByConversationId u c l b s))) = map seenBy (messages s) \<and>
   map (\<lambda>m. m\<lparr>readBy := []\<rparr>) (messages (snd (getMessagesByConversationId u c l b s))) =
     map (\<lambda>m. m\<lparr>readBy := []\<rparr>) (messages s) \<and>
   conversations (snd (getMessagesByConversationId u c l b s)) = conversations s"
  using getMessages_db [of u c l b s]
  by (auto simp: markRead_seenBy markRead_only_readBy)

theorem C9_listing_leaves_seenBy_witness:
  "map seenBy (messages (snd (getMessagesByConversationId 1 (IdValid 10) None DateAbsent dbWatermark)))
     = [[], []] \<and>
   map readBy (messages (snd (getMessagesByConversationId 1 (IdValid 10) None DateAbsent dbWatermark)))
     = [[1], [1]]"
proof -
  have "map readBy (messages (snd (getMessagesByConversationId 1 (IdValid 10) None DateAbsent dbWatermark)))
     = [[1], [1]]"
    by code_simp
  moreover have "map seenBy (messages dbWatermark) = [[], []]"
    by code_simp
  ultimately show ?thesis
    using C9_listing_leaves_seenBy [of 1 "IdValid 10" None DateAbsent dbWatermark]
    by simp
qed

section \<open>C10: markMessagesSeen checks neither membership nor existence\<close>

text \<open>
  C10. For every user, every non-empty array of message ids and every database (whether
  or not the user takes part in any conversation): the answer is 200 \<open>Marked seen\<close>, the
  conversations are untouched, every message whose id is in the array has the user in
  \<open>seenBy\<close> afterwards, every other message is unchanged, nothing but \<open>seenBy\<close> changes,
  and when no message matches the call still succeeds and changes nothing.
\<close>

theorem C10_markSeen_checks_nothing:
  assumes "ids \<noteq> []"
  shows "fst (markMessagesSeen me (IdsArray ids) s) = Response 200 (Message ''Marked seen'') \<and>
         conversations (snd (markMessagesSeen me (IdsArray ids) s)) = conversations s \<and>
         length (messages (snd (markMessagesSeen me (IdsArray ids) s))) = length (messages s) \<and>
         (\<forall>i < length (messages s).
            (msg_id (messages s ! i) \<in> set ids \<longrightarrow>
               me \<in> set (seenBy (messages (snd (markMessagesSeen me (IdsArray ids) s)) ! i))) \<and>
            (msg_id (messages s ! i) \<notin> set ids \<longrightarrow>
               messages (snd (markMessagesSeen me (IdsArray ids) s)) ! i = messages s ! i) \<and>
            (messages (snd (markMessagesSeen me (IdsArray ids) s)) ! i)\<lparr>seenBy := []\<rparr> =
              (messages s ! i)\<lparr>seenBy := []\<rparr>) \<and>
         ((\<forall>m \<in> set (messages s). msg_id m \<notin> set ids) \<longrightarrow>
            snd (markMessagesSeen me (IdsArray ids) s) = s)"
proof -
  let ?f = "\<lambda>m. if msg_id m \<in> set ids \<and> me \<notin> set (seenBy m) then markSeenBy me m else m"
  have run: "markMessagesSeen me (IdsArray ids) s =
     (Response 200 (Message ''Marked seen''), s\<lparr>messages := map ?f (messages s)\<rparr>)"
    using assms by (rule markSeen_run)
  have unchanged: "map ?f (messages s) = messages s"
    if "\<forall>m \<in> set (messages s). msg_id m \<notin> set ids"
    using that by (simp add: map_idI)
  show ?thesis
    unfolding run
    using markSeenBy_step [of _ ids me] unchanged
    by simp
qed

theorem C10_markSeen_checks_nothing_witness:
  "list_ex (\<lambda>p. userId p = 3) (concat (map participants (conversations dbWatermark))) = False \<and>
   fst (markMessagesSeen 3 (IdsArray [101, 999]) dbWatermark) = Response 200 (Message ''Marked seen'') \<and>
   3 \<in> set (seenBy (messages (snd (markMessagesSeen 3 (IdsArray [101, 999]) dbWatermark)) ! 0)) \<and>
   fst (markMessagesSeen 3 (IdsArray [999]) dbWatermark) = Response 200 (Message ''Marked seen'') \<and>
   snd (markMessagesSeen 3 (IdsArray [999]) dbWatermark) = dbWatermark"
proof -
  have outsider: "list_ex (\<lambda>p. userId p = 3) (concat (map participants (conversations dbWatermark))) = False"
    by code_simp
  have first: "msg_id (messages dbWatermark ! 0) \<in> set [101, 999]" "0 < length (messages dbWatermark)"
    by (simp_all add: dbWatermark_def oldMessage_def newMessage_def)
  have nomatch: "\<forall>m \<in> set (messages dbWatermark). msg_id m \<notin> set [999]"
    by (simp add: dbWatermark_def oldMessage_def recentMessage_def newMessage_def)
  have a: "[101, 999::nat] \<noteq> []" and b: "[999::nat] \<noteq> []"
    by simp_all
  from C10_markSeen_checks_nothing [OF a, of 3 dbWatermark] first
  have "fst (markMessagesSeen 3 (IdsArray [101, 999]) dbWatermark) = Response 200 (Message ''Marked seen'')"
    and "3 \<in> set (seenBy (messages (snd (markMessagesSeen 3 (IdsArray [101, 999]) dbWatermark)) ! 0))"
    by blast+
  moreover from C10_markSeen_checks_nothing [OF b, of 3 dbWatermark] nomatch
  have "fst (markMessagesSeen 3 (IdsArray [999]) dbWatermark) = Response 200 (Message ''Marked seen'')"
    and "snd (markMessagesSeen 3 (IdsArray [999]) dbWatermark) = dbWatermark"
    by blast+
  ultimately show ?thesis
    using outsider by blast
qed

end
